theory Spec2Isabelle
  imports Main
begin

section \<open>Common vocabulary\<close>

text \<open>
  Identifiers (\<open>_id\<close>, \<open>userId\<close>) are strings, dates are milliseconds since the epoch.
  The clock (\<open>Date.now()\<close>, \<open>new Date()\<close>), the random draw of \<open>generateOTP\<close>, the
  identifier given to a created document, bcrypt and the JWT library are inputs of the
  handlers: every handler is a function of the request, of these inputs and of the
  collections it touches, and returns its reply with the collections as it leaves them.
\<close>

type_synonym objectId = string
type_synonym date = int

text \<open>The JSON reply of a handler: \<open>res.status(st).json({success, message, ...})\<close>.\<close>

datatype 'a reply = Reply (status: nat) (success: bool) (message: string) (payload: 'a)

text \<open>JavaScript truthiness of a string that may be absent: \<open>!x\<close> holds for
  \<open>undefined\<close> and for the empty string.\<close>

fun truthy :: "string option \<Rightarrow> bool" where
  "truthy None = False"
| "truthy (Some s) = (s \<noteq> [])"

text \<open>\<open>process.env\<close>, the variables the handlers read.\<close>

record env =
  NODE_ENV :: "string option"
  STATIC_OTP :: "string option"
  JWT_EXPIRE :: "string option"

section \<open>User collection (models/User.js)\<close>

text \<open>The embedded legacy arrays \<open>contacts\<close> and \<open>smsLogs\<close> are not read or written
  by any handler modelled here and are left out.\<close>

record user =
  uid :: objectId
  phoneNumber :: string
  name :: "string option"
  email :: "string option"
  address :: "string option"
  otp :: "string option"
  otpExpiry :: "date option"
  isVerified :: bool
  smsPermission :: bool
  contactPermission :: bool
  isProfileComplete :: bool
  fcmToken :: "string option"

text \<open>\<open>User.findOne({ phoneNumber })\<close>: the first document with that phone number.\<close>

fun findOne :: "string \<Rightarrow> user list \<Rightarrow> user option" where
  "findOne p [] = None"
| "findOne p (u # us) = (if phoneNumber u = p then Some u else findOne p us)"

text \<open>\<open>User.findById(id)\<close>.\<close>

fun findById :: "objectId \<Rightarrow> user list \<Rightarrow> user option" where
  "findById i [] = None"
| "findById i (u # us) = (if uid u = i then Some u else findById i us)"

text \<open>\<open>user.save()\<close> writes the document back under its \<open>_id\<close>.\<close>

definition save :: "user \<Rightarrow> user list \<Rightarrow> user list" where
  "save u us = map (\<lambda>v. if uid v = uid u then u else v) us"

text \<open>\<open>User.create({ phoneNumber, otp, otpExpiry })\<close>: the schema defaults fill the rest.\<close>

definition create :: "objectId \<Rightarrow> string \<Rightarrow> string \<Rightarrow> date \<Rightarrow> user" where
  "create i p c e =
     \<lparr>uid = i, phoneNumber = p, name = None, email = None, address = None,
      otp = Some c, otpExpiry = Some e, isVerified = False, smsPermission = False,
      contactPermission = False, isProfileComplete = False, fcmToken = None\<rparr>"

section \<open>OTP authentication (controllers/authController.js)\<close>

text \<open>Decimal rendering of a number, \<open>.toString()\<close>.\<close>

fun toString :: "nat \<Rightarrow> string" where
  "toString n =
     (if n < 10 then [''0123456789'' ! n]
      else toString (n div 10) @ [''0123456789'' ! (n mod 10)])"

declare toString.simps [simp del]

text \<open>\<open>Math.floor(100000 + Math.random() * 900000).toString()\<close>; the argument is the
  draw \<open>Math.floor(Math.random() * 900000)\<close>, a number below 900000.\<close>

definition generateOTP :: "nat \<Rightarrow> string" where
  "generateOTP r = toString (100000 + r)"

text \<open>\<open>/^[0-9]{10}$/.test(phoneNumber)\<close>.\<close>

definition phoneRegex :: "string \<Rightarrow> bool" where
  "phoneRegex p = (length p = 10 \<and> list_all (\<lambda>c. c \<in> set ''0123456789'') p)"

text \<open>\<open>process.env.STATIC_OTP || generateOTP()\<close>.\<close>

definition staticOrGenerated :: "env \<Rightarrow> nat \<Rightarrow> string" where
  "staticOrGenerated ev r =
     (case STATIC_OTP ev of
        Some s \<Rightarrow> (if s \<noteq> [] then s else generateOTP r)
      | None \<Rightarrow> generateOTP r)"

text \<open>\<open>sendOtp\<close>, the handler of \<open>POST /api/auth/login\<close> (the spec's \<open>requestOtp\<close>).
  Arguments: environment, clock, random draw, identifier for a created user, the
  \<open>phoneNumber\<close> field of the body. The payload of the reply is its \<open>otp\<close> field.\<close>

definition sendOtp ::
  "env \<Rightarrow> date \<Rightarrow> nat \<Rightarrow> objectId \<Rightarrow> string option \<Rightarrow> user list
     \<Rightarrow> string option reply \<times> user list" where
  "sendOtp ev now r newId phone users =
     (case phone of
        None \<Rightarrow> (Reply 400 False ''Phone number is required'' None, users)
      | Some p \<Rightarrow>
          if p = [] then (Reply 400 False ''Phone number is required'' None, users)
          else if \<not> phoneRegex p then
            (Reply 400 False ''Please provide a valid 10 digit phone number'' None, users)
          else
            let code = staticOrGenerated ev r;
                expiry = now + 10 * 60 * 1000;
                users' = (case findOne p users of
                            None \<Rightarrow> users @ [create newId p code expiry]
                          | Some u \<Rightarrow> save (u\<lparr>otp := Some code, otpExpiry := Some expiry\<rparr>) users)
            in (Reply 200 True ''OTP sent successfully''
                  (if NODE_ENV ev = Some ''development'' \<or> truthy (STATIC_OTP ev)
                   then Some code else None),
                users'))"

text \<open>The session token is opaque: \<open>jwt.sign({ id }, secret, { expiresIn })\<close> is kept
  as its subject and its validity.\<close>

datatype token = Token (subject: objectId) (expiresIn: string)

definition generateToken :: "env \<Rightarrow> objectId \<Rightarrow> token" where
  "generateToken ev i =
     Token i (case JWT_EXPIRE ev of
                Some s \<Rightarrow> (if s \<noteq> [] then s else ''7d'')
              | None \<Rightarrow> ''7d'')"

text \<open>The user projection returned by \<open>verifyOtp\<close>; it has no OTP field.\<close>

record userView =
  v_id :: objectId
  v_phoneNumber :: string
  v_name :: "string option"
  v_email :: "string option"
  v_address :: "string option"
  v_smsPermission :: bool
  v_contactPermission :: bool
  v_isProfileComplete :: bool

definition project :: "user \<Rightarrow> userView" where
  "project u =
     \<lparr>v_id = uid u, v_phoneNumber = phoneNumber u, v_name = name u, v_email = email u,
      v_address = address u, v_smsPermission = smsPermission u,
      v_contactPermission = contactPermission u,
      v_isProfileComplete = isProfileComplete u\<rparr>"

text \<open>\<open>user.otpExpiry < new Date()\<close>: an absent expiry compares as \<open>NaN\<close>, and the
  comparison is false.\<close>

fun expired :: "date option \<Rightarrow> date \<Rightarrow> bool" where
  "expired None now = False"
| "expired (Some e) now = (e < now)"

text \<open>\<open>verifyOtp\<close>, the handler of \<open>POST /api/auth/verify-otp\<close>.\<close>

definition verifyOtp ::
  "env \<Rightarrow> date \<Rightarrow> string option \<Rightarrow> string option \<Rightarrow> user list
     \<Rightarrow> (token \<times> userView) option reply \<times> user list" where
  "verifyOtp ev now phone code users =
     (if \<not> truthy phone \<or> \<not> truthy code then
        (Reply 400 False ''Phone number and OTP are required'' None, users)
      else
        case findOne (the phone) users of
          None \<Rightarrow> (Reply 404 False ''User not found'' None, users)
        | Some u \<Rightarrow>
            if expired (otpExpiry u) now then
              (Reply 400 False ''OTP has expired'' None, users)
            else if otp u \<noteq> code then
              (Reply 400 False ''Invalid OTP'' None, users)
            else
              let u' = u\<lparr>isVerified := True, otp := None, otpExpiry := None\<rparr>
              in (Reply 200 True ''OTP verified successfully''
                    (Some (generateToken ev (uid u'), project u')),
                  save u' users))"

text \<open>\<open>resendOtp\<close>, the handler of \<open>POST /api/auth/resend-otp\<close>.\<close>

definition resendOtp ::
  "env \<Rightarrow> date \<Rightarrow> nat \<Rightarrow> string option \<Rightarrow> user list
     \<Rightarrow> string option reply \<times> user list" where
  "resendOtp ev now r phone users =
     (if \<not> truthy phone then (Reply 400 False ''Phone number is required'' None, users)
      else
        case findOne (the phone) users of
          None \<Rightarrow> (Reply 404 False ''User not found'' None, users)
        | Some u \<Rightarrow>
            let code = generateOTP r;
                expiry = now + 10 * 60 * 1000
            in (Reply 200 True ''OTP resent successfully''
                  (if NODE_ENV ev = Some ''development'' then Some code else None),
                save (u\<lparr>otp := Some code, otpExpiry := Some expiry\<rparr>) users))"

text \<open>The error names of the specification, as the replies the handlers send.\<close>

definition ExpiredError :: "'a option reply" where
  "ExpiredError = Reply 400 False ''OTP has expired'' None"

definition MismatchError :: "'a option reply" where
  "MismatchError = Reply 400 False ''Invalid OTP'' None"

definition NotFoundError :: "'a option reply" where
  "NotFoundError = Reply 404 False ''User not found'' None"

section \<open>Access guard and admin login (middleware/auth.js, controllers/adminController.js)\<close>

record admin =
  a_id :: objectId
  a_email :: string
  password :: string
  a_name :: string
  role :: string
  isActive :: bool

text \<open>\<open>Admin.findOne({ email })\<close> and \<open>Admin.findById(id)\<close>.\<close>

fun findOneAdmin :: "string \<Rightarrow> admin list \<Rightarrow> admin option" where
  "findOneAdmin e [] = None"
| "findOneAdmin e (a # as) = (if a_email a = e then Some a else findOneAdmin e as)"

fun findAdminById :: "objectId \<Rightarrow> admin list \<Rightarrow> admin option" where
  "findAdminById i [] = None"
| "findAdminById i (a # as) = (if a_id a = i then Some a else findAdminById i as)"

record adminView =
  av_id :: objectId
  av_email :: string
  av_name :: string
  av_role :: string

text \<open>\<open>adminLogin\<close>; \<open>compare\<close> is \<open>bcrypt.compare(password, hash)\<close>.\<close>

definition adminLogin ::
  "env \<Rightarrow> (string \<Rightarrow> string \<Rightarrow> bool) \<Rightarrow> string option \<Rightarrow> string option \<Rightarrow> admin list
     \<Rightarrow> (token \<times> adminView) option reply" where
  "adminLogin ev compare mail pw admins =
     (if \<not> truthy mail \<or> \<not> truthy pw then
        Reply 400 False ''Please provide email and password'' None
      else
        case findOneAdmin (the mail) admins of
          None \<Rightarrow> Reply 401 False ''Invalid credentials'' None
        | Some a \<Rightarrow>
            if \<not> compare (the pw) (password a) then
              Reply 401 False ''Invalid credentials'' None
            else if \<not> isActive a then
              Reply 401 False ''Account is deactivated'' None
            else
              Reply 200 True ''Login successful''
                (Some (generateToken ev (a_id a),
                       \<lparr>av_id = a_id a, av_email = a_email a, av_name = a_name a,
                        av_role = role a\<rparr>)))"

text \<open>\<open>s.split(' ')\<close>: the pieces between single spaces.\<close>

fun split_sp :: "string \<Rightarrow> string list" where
  "split_sp [] = [[]]"
| "split_sp (c # cs) =
     (if c = CHR '' '' then [] # split_sp cs
      else (case split_sp cs of
              [] \<Rightarrow> [[c]]
            | w # ws \<Rightarrow> (c # w) # ws))"

text \<open>The token of the \<open>Authorization\<close> header:
  \<open>if (h && h.startsWith('Bearer')) token = h.split(' ')[1]\<close>; \<open>None\<close> is \<open>undefined\<close>.\<close>

definition bearer :: "string option \<Rightarrow> string option" where
  "bearer h =
     (case h of
        None \<Rightarrow> None
      | Some a \<Rightarrow>
          if a \<noteq> [] \<and> take 6 a = ''Bearer'' then
            (case split_sp a of
               x # y # ys \<Rightarrow> Some y
             | _ \<Rightarrow> None)
          else None)"

text \<open>A guard either hands the principal to the next handler or answers itself.\<close>

datatype 'p guarded = Next 'p | Rejected nat string

text \<open>\<open>protect\<close> and \<open>adminProtect\<close>; \<open>jwtVerify\<close> is \<open>jwt.verify(token, secret)\<close>
  giving the \<open>id\<close> of the decoded payload, \<open>None\<close> when it throws.\<close>

definition protect ::
  "(string \<Rightarrow> objectId option) \<Rightarrow> string option \<Rightarrow> user list \<Rightarrow> user guarded" where
  "protect jwtVerify h users =
     (if \<not> truthy (bearer h) then Rejected 401 ''Not authorized to access this route''
      else
        case jwtVerify (the (bearer h)) of
          None \<Rightarrow> Rejected 401 ''Not authorized to access this route''
        | Some i \<Rightarrow>
            (case findById i users of
               None \<Rightarrow> Rejected 401 ''User not found''
             | Some u \<Rightarrow> Next u))"

definition adminProtect ::
  "(string \<Rightarrow> objectId option) \<Rightarrow> string option \<Rightarrow> admin list \<Rightarrow> admin guarded" where
  "adminProtect jwtVerify h admins =
     (if \<not> truthy (bearer h) then Rejected 401 ''Not authorized - Admin access required''
      else
        case jwtVerify (the (bearer h)) of
          None \<Rightarrow> Rejected 401 ''Not authorized - Invalid token''
        | Some i \<Rightarrow>
            (case findAdminById i admins of
               None \<Rightarrow> Rejected 403 ''Access denied - Admin privileges required''
             | Some a \<Rightarrow> Next a))"

section \<open>Order cancellation (the order routes, models/Order.js)\<close>

text \<open>The schema's enum \<open>['pending', 'picked', 'in-process', 'delivered', 'cancelled']\<close>.\<close>

datatype orderStatus = Pending | Picked | InProcess | Delivered | Cancelled

fun statusString :: "orderStatus \<Rightarrow> string" where
  "statusString Pending = ''pending''"
| "statusString Picked = ''picked''"
| "statusString InProcess = ''in-process''"
| "statusString Delivered = ''delivered''"
| "statusString Cancelled = ''cancelled''"

record order =
  o_id :: objectId
  o_userId :: objectId
  serviceId :: string
  serviceName :: string
  pickupDate :: date
  pickupTime :: string
  o_status :: orderStatus
  o_address :: "string option"
  o_notes :: "string option"
  customerName :: "string option"
  customerPhone :: "string option"

fun findOrderById :: "objectId \<Rightarrow> order list \<Rightarrow> order option" where
  "findOrderById i [] = None"
| "findOrderById i (x # xs) = (if o_id x = i then Some x else findOrderById i xs)"

definition saveOrder :: "order \<Rightarrow> order list \<Rightarrow> order list" where
  "saveOrder x xs = map (\<lambda>y. if o_id y = o_id x then x else y) xs"

text \<open>\<open>router.patch('/:id/cancel', protect, ...)\<close>: the handler behind the guard, with
  the user the guard resolved and the \<open>id\<close> of the path.\<close>

definition cancelOrder ::
  "user \<Rightarrow> objectId \<Rightarrow> order list \<Rightarrow> order option reply \<times> order list" where
  "cancelOrder reqUser i orders =
     (case findOrderById i orders of
        None \<Rightarrow> (Reply 404 False ''Order not found'' None, orders)
      | Some x \<Rightarrow>
          if o_userId x \<noteq> uid reqUser then
            (Reply 403 False ''Not authorized to cancel this order'' None, orders)
          else if o_status x = Delivered \<or> o_status x = Cancelled then
            (Reply 400 False
               (''Cannot cancel order with status: '' @ statusString (o_status x)) None,
             orders)
          else
            let x' = x\<lparr>o_status := Cancelled\<rparr>
            in (Reply 200 True ''Order cancelled successfully'' (Some x'),
                saveOrder x' orders))"

definition InvalidStateError :: "orderStatus \<Rightarrow> 'a option reply" where
  "InvalidStateError st =
     Reply 400 False (''Cannot cancel order with status: '' @ statusString st) None"

section \<open>Contact sync (controllers/contactController.js, models/Contact.js)\<close>

record contact =
  c_userId :: objectId
  c_phoneNumber :: string
  c_name :: string
  c_email :: "string option"
  syncedAt :: date

text \<open>An entry of the request's \<open>contacts\<close> array.\<close>

record contactItem =
  i_name :: string
  i_phoneNumber :: string
  i_email :: "string option"

text \<open>One operation of the bulk write:
  \<open>updateOne: { filter: { userId, phoneNumber }, update: { $set: { name, email, syncedAt } },
  upsert: true }\<close>.\<close>

record bulkOp =
  f_userId :: objectId
  f_phoneNumber :: string
  s_name :: string
  s_email :: "string option"
  s_syncedAt :: date

text \<open>\<open>x || null\<close> on an optional string.\<close>

fun orNull :: "string option \<Rightarrow> string option" where
  "orNull None = None"
| "orNull (Some s) = (if s = [] then None else Some s)"

text \<open>\<open>contacts.map(contact => ...)\<close>; each entry reads the clock for its own
  \<open>syncedAt\<close>, so the clock is a function of the entry's position.\<close>

fun bulkOps :: "(nat \<Rightarrow> date) \<Rightarrow> nat \<Rightarrow> objectId \<Rightarrow> contactItem list \<Rightarrow> bulkOp list" where
  "bulkOps clock k userId [] = []"
| "bulkOps clock k userId (c # cs) =
     \<lparr>f_userId = userId, f_phoneNumber = i_phoneNumber c, s_name = i_name c,
      s_email = orNull (i_email c), s_syncedAt = clock k\<rparr>
       # bulkOps clock (Suc k) userId cs"

text \<open>Counters of \<open>Contact.bulkWrite\<close>, with the collection.\<close>

record bulkResult =
  docs :: "contact list"
  upsertedCount :: nat
  modifiedCount :: nat

text \<open>The \<open>$set\<close> of an operation applied to a matched document.\<close>

definition applySet :: "bulkOp \<Rightarrow> contact \<Rightarrow> contact" where
  "applySet b d = d\<lparr>c_name := s_name b, c_email := s_email b, syncedAt := s_syncedAt b\<rparr>"

text \<open>The document an upsert inserts: the filter's fields and the \<open>$set\<close>.\<close>

definition upserted :: "bulkOp \<Rightarrow> contact" where
  "upserted b =
     \<lparr>c_userId = f_userId b, c_phoneNumber = f_phoneNumber b, c_name = s_name b,
      c_email = s_email b, syncedAt = s_syncedAt b\<rparr>"

definition matches :: "bulkOp \<Rightarrow> contact \<Rightarrow> bool" where
  "matches b d = (c_userId d = f_userId b \<and> c_phoneNumber d = f_phoneNumber b)"

text \<open>\<open>updateOne\<close> with \<open>upsert: true\<close> on the documents: the first match is updated,
  and without a match the document is inserted.\<close>

fun updateOne :: "bulkOp \<Rightarrow> contact list \<Rightarrow> contact list" where
  "updateOne b [] = [upserted b]"
| "updateOne b (d # ds) =
     (if matches b d then applySet b d # ds else d # updateOne b ds)"

text \<open>One operation with its counters: \<open>upsertedCount\<close> counts the inserts,
  \<open>modifiedCount\<close> the matched documents that changed.\<close>

definition runOp :: "bulkOp \<Rightarrow> bulkResult \<Rightarrow> bulkResult" where
  "runOp b r =
     (case find (matches b) (docs r) of
        None \<Rightarrow> r\<lparr>docs := updateOne b (docs r), upsertedCount := upsertedCount r + 1\<rparr>
      | Some d \<Rightarrow>
          r\<lparr>docs := updateOne b (docs r),
            modifiedCount := modifiedCount r + (if applySet b d = d then 0 else 1)\<rparr>)"

text \<open>\<open>Contact.bulkWrite(bulkOps)\<close>, ordered.\<close>

definition bulkWrite :: "bulkOp list \<Rightarrow> contact list \<Rightarrow> bulkResult" where
  "bulkWrite ops ds = fold runOp ops \<lparr>docs = ds, upsertedCount = 0, modifiedCount = 0\<rparr>"

text \<open>\<open>User.findByIdAndUpdate(userId, { contactPermission: v })\<close>.\<close>

fun findByIdAndUpdate :: "objectId \<Rightarrow> bool \<Rightarrow> user list \<Rightarrow> user list" where
  "findByIdAndUpdate i v [] = []"
| "findByIdAndUpdate i v (u # us) =
     (if uid u = i then u\<lparr>contactPermission := v\<rparr> # us
      else u # findByIdAndUpdate i v us)"

record syncData =
  inserted :: nat
  updated :: nat
  total :: nat
  totalInDb :: nat

text \<open>The batch the handler writes: the request's entries and, when \<open>userPhoneNumber\<close>
  is given, the user's own number pushed at the end.\<close>

definition withOwn :: "user \<Rightarrow> string option \<Rightarrow> contactItem list \<Rightarrow> contactItem list" where
  "withOwn u own cs =
     (if truthy own then
        cs @ [\<lparr>i_name = (if truthy (name u) then the (name u) else ''Me (Own Number)''),
               i_phoneNumber = the own, i_email = orNull (email u)\<rparr>]
      else cs)"

text \<open>\<open>syncContacts\<close>: \<open>userId\<close> is \<open>req.user.id\<close>, \<open>contacts\<close> is \<open>None\<close> when the
  body's field is absent or not an array.\<close>

definition syncContacts ::
  "(nat \<Rightarrow> date) \<Rightarrow> objectId \<Rightarrow> contactItem list option \<Rightarrow> string option
     \<Rightarrow> user list \<times> contact list
     \<Rightarrow> syncData option reply \<times> user list \<times> contact list" where
  "syncContacts clock userId contacts own st =
     (case contacts of
        None \<Rightarrow> (Reply 400 False ''Invalid contacts data'' None, st)
      | Some cs \<Rightarrow>
          if cs = [] then (Reply 200 False ''No contacts to sync'' None, st)
          else
            (case findById userId (fst st) of
               None \<Rightarrow> (Reply 404 False ''User not found'' None, st)
             | Some u \<Rightarrow>
                 let cs' = withOwn u own cs;
                     users' = findByIdAndUpdate userId True (fst st);
                     r = bulkWrite (bulkOps clock 0 userId cs') (snd st)
                 in (Reply 200 True ''Contacts synced successfully''
                       (Some \<lparr>inserted = upsertedCount r, updated = modifiedCount r,
                              total = length cs',
                              totalInDb =
                                length (filter (\<lambda>d. c_userId d = userId) (docs r))\<rparr>),
                     users', docs r)))"

text \<open>\<open>deleteMyContacts\<close>; the payload is \<open>deletedCount\<close>.\<close>

definition deleteMyContacts ::
  "objectId \<Rightarrow> user list \<times> contact list \<Rightarrow> nat reply \<times> user list \<times> contact list" where
  "deleteMyContacts userId st =
     (Reply 200 True ''All contacts deleted successfully''
        (length (filter (\<lambda>d. c_userId d = userId) (snd st))),
      findByIdAndUpdate userId False (fst st),
      filter (\<lambda>d. c_userId d \<noteq> userId) (snd st))"

text \<open>The key of the unique index \<open>{ userId: 1, phoneNumber: 1 }\<close>.\<close>

definition contactKey :: "contact \<Rightarrow> objectId \<times> string" where
  "contactKey d = (c_userId d, c_phoneNumber d)"

text \<open>The contact collections the two writing handlers can produce from an empty one.\<close>

inductive reachable :: "contact list \<Rightarrow> bool" where
  empty: "reachable []"
| sync: "reachable ds \<Longrightarrow>
           reachable (snd (snd (syncContacts clock userId contacts own (us, ds))))"
| delete: "reachable ds \<Longrightarrow> reachable (snd (snd (deleteMyContacts userId (us, ds))))"

text \<open>A contact row without its sync time.\<close>

definition unstamped :: "contact \<Rightarrow> contact" where
  "unstamped d = d\<lparr>syncedAt := 0\<rparr>"

section \<open>SMS sync (controllers/smsController.js, models/Sms.js)\<close>

text \<open>A stored document: \<open>userId\<close> is an ObjectId, the other fields are as the schema
  casts them.\<close>

record sms =
  s_userId :: objectId
  smsId :: string
  s_address :: string
  s_body :: string
  s_date :: date
  s_type :: string

text \<open>An element of the request's \<open>smsData\<close> array other than \<open>null\<close>; each field may
  be missing, \<open>m_id\<close> is \<open>sms.id\<close> as the schema casts it to a string, and \<open>m_date\<close> is
  \<open>new Date(sms.date)\<close> with \<open>None\<close> for an invalid date.\<close>

record smsItem =
  m_id :: "string option"
  m_address :: "string option"
  m_body :: "string option"
  m_date :: "date option"
  m_type :: "string option"

datatype failure = CastFailure | ValidationFailure

text \<open>\<open>Sms.findOne({ userId, smsId: sms.id })\<close> once \<open>userId\<close> is cast to the ObjectId
  \<open>u\<close>.\<close>

fun findOneSms :: "objectId \<Rightarrow> string option \<Rightarrow> sms list \<Rightarrow> sms option" where
  "findOneSms u i [] = None"
| "findOneSms u i (d # ds) =
     (if s_userId d = u \<and> Some (smsId d) = i then Some d else findOneSms u i ds)"

text \<open>\<open>Sms.create({...})\<close> under the schema, \<open>userId\<close> cast to \<open>u\<close>: every field is
  required (a required string is not empty) and \<open>type\<close> is \<open>inbox\<close> or \<open>sent\<close>;
  otherwise validation throws.\<close>

definition createSms :: "objectId \<Rightarrow> smsItem \<Rightarrow> failure + sms" where
  "createSms u m =
     (case (m_id m, m_address m, m_body m, m_date m, m_type m) of
        (Some i, Some a, Some b, Some d, Some t) \<Rightarrow>
          if i \<noteq> [] \<and> a \<noteq> [] \<and> b \<noteq> [] \<and> (t = ''inbox'' \<or> t = ''sent'') then
            Inr \<lparr>s_userId = u, smsId = i, s_address = a, s_body = b, s_date = d, s_type = t\<rparr>
          else Inl ValidationFailure
      | _ \<Rightarrow> Inl ValidationFailure)"

text \<open>The loop's variables: the collection, \<open>syncedCount\<close>, \<open>skippedCount\<close>, \<open>errors\<close>
  (the offending \<open>sms.id\<close> and what was thrown).\<close>

record batch =
  rows :: "sms list"
  syncedCount :: nat
  skippedCount :: nat
  errors :: "(string option \<times> failure) list"

text \<open>The body of the loop for an item that is not \<open>null\<close>. \<open>castObjectId\<close> is the
  cast Mongoose applies to the request's \<open>userId\<close> string in the query and in the
  document it creates: it gives the ObjectId the string spells (two spellings of the same
  ObjectId, such as upper and lower case digits, give the same one), and \<open>None\<close> when the
  string spells none and the query throws.\<close>

definition processItem ::
  "(string \<Rightarrow> objectId option) \<Rightarrow> string \<Rightarrow> smsItem \<Rightarrow> batch \<Rightarrow> batch" where
  "processItem castObjectId userId m b =
     (case castObjectId userId of
        None \<Rightarrow> b\<lparr>errors := errors b @ [(m_id m, CastFailure)]\<rparr>
      | Some u \<Rightarrow>
          (case findOneSms u (m_id m) (rows b) of
             Some d \<Rightarrow> b\<lparr>skippedCount := skippedCount b + 1\<rparr>
           | None \<Rightarrow>
               (case createSms u m of
                  Inr d \<Rightarrow> b\<lparr>rows := rows b @ [d], syncedCount := syncedCount b + 1\<rparr>
                | Inl f \<Rightarrow> b\<lparr>errors := errors b @ [(m_id m, f)]\<rparr>)))"

text \<open>\<open>for (const sms of smsData) { try {...} catch (err) { errors.push({ smsId: sms.id,
  ... }) } }\<close>. An element that is \<open>null\<close> (\<open>None\<close>) makes \<open>sms.id\<close> throw inside the
  \<open>try\<close> and again inside the \<open>catch\<close>, which leaves the loop: the flag returned with
  the variables says so.\<close>

fun syncLoop ::
  "(string \<Rightarrow> objectId option) \<Rightarrow> string \<Rightarrow> smsItem option list \<Rightarrow> batch
     \<Rightarrow> batch \<times> bool" where
  "syncLoop castObjectId userId [] b = (b, False)"
| "syncLoop castObjectId userId (None # ms) b = (b, True)"
| "syncLoop castObjectId userId (Some m # ms) b =
     syncLoop castObjectId userId ms (processItem castObjectId userId m b)"

record batchData =
  synced :: nat
  skipped :: nat
  errorCount :: nat
  errorDetails :: "(string option \<times> failure) list"

text \<open>The variables as the handler initialises them.\<close>

definition batch0 :: "sms list \<Rightarrow> batch" where
  "batch0 ds = \<lparr>rows = ds, syncedCount = 0, skippedCount = 0, errors = []\<rparr>"

text \<open>\<open>syncSmsBatch\<close>: \<open>smsData\<close> is \<open>None\<close> when the body's field is not an array.\<close>

definition syncSmsBatch ::
  "(string \<Rightarrow> objectId option) \<Rightarrow> string option \<Rightarrow> smsItem option list option \<Rightarrow> sms list
     \<Rightarrow> batchData option reply \<times> sms list" where
  "syncSmsBatch castObjectId userId smsData ds =
     (if \<not> truthy userId \<or> smsData = None then
        (Reply 400 False ''userId and smsData array are required'' None, ds)
      else
        case syncLoop castObjectId (the userId) (the smsData) (batch0 ds) of
          (b, True) \<Rightarrow> (Reply 500 False ''Failed to sync SMS batch'' None, rows b)
        | (b, False) \<Rightarrow>
            (Reply 200 True ''SMS batch sync completed''
               (Some \<lparr>synced = syncedCount b, skipped = skippedCount b,
                      errorCount = length (errors b), errorDetails = errors b\<rparr>),
             rows b))"

subsection \<open>What a batch is expected to do, item by item\<close>

text \<open>Whether a row of the user \<open>u\<close> with this \<open>sms.id\<close> is in the collection.\<close>

definition stored :: "objectId \<Rightarrow> string option \<Rightarrow> sms list \<Rightarrow> bool" where
  "stored u i ds = (findOneSms u i ds \<noteq> None)"

text \<open>Whether an item passes the validation of \<open>Sms.create\<close>.\<close>

definition accepted :: "objectId \<Rightarrow> smsItem \<Rightarrow> bool" where
  "accepted u m = (case createSms u m of Inr d \<Rightarrow> True | Inl f \<Rightarrow> False)"

text \<open>An item is a duplicate when its \<open>(userId, smsId)\<close> is stored before the call, or when
  an earlier item of the call (\<open>pre\<close>) had the same \<open>sms.id\<close> and was accepted.\<close>

definition duplicate :: "objectId \<Rightarrow> sms list \<Rightarrow> smsItem list \<Rightarrow> smsItem \<Rightarrow> bool" where
  "duplicate u ds pre m =
     (stored u (m_id m) ds \<or> list_ex (\<lambda>m0. m_id m0 = m_id m \<and> accepted u m0) pre)"

text \<open>The three buckets an item can fall in.\<close>

datatype outcome = Synced sms | Skipped | Failed failure

definition outcomeOf :: "objectId \<Rightarrow> sms list \<Rightarrow> smsItem list \<Rightarrow> smsItem \<Rightarrow> outcome" where
  "outcomeOf u ds pre m =
     (if duplicate u ds pre m then Skipped
      else case createSms u m of Inr d \<Rightarrow> Synced d | Inl f \<Rightarrow> Failed f)"

text \<open>The outcome of every item of a batch, each judged by the collection before the call
  and by the items before it, whatever happened to them.\<close>

fun outcomes ::
  "objectId \<Rightarrow> sms list \<Rightarrow> smsItem list \<Rightarrow> smsItem list \<Rightarrow> (smsItem \<times> outcome) list" where
  "outcomes u ds pre [] = []"
| "outcomes u ds pre (m # ms) = (m, outcomeOf u ds pre m) # outcomes u ds (pre @ [m]) ms"

fun syncedRows :: "(smsItem \<times> outcome) list \<Rightarrow> sms list" where
  "syncedRows [] = []"
| "syncedRows ((m, Synced d) # os) = d # syncedRows os"
| "syncedRows ((m, Skipped) # os) = syncedRows os"
| "syncedRows ((m, Failed f) # os) = syncedRows os"

fun skippedItems :: "(smsItem \<times> outcome) list \<Rightarrow> smsItem list" where
  "skippedItems [] = []"
| "skippedItems ((m, Synced d) # os) = skippedItems os"
| "skippedItems ((m, Skipped) # os) = m # skippedItems os"
| "skippedItems ((m, Failed f) # os) = skippedItems os"

fun failures :: "(smsItem \<times> outcome) list \<Rightarrow> (string option \<times> failure) list" where
  "failures [] = []"
| "failures ((m, Synced d) # os) = failures os"
| "failures ((m, Skipped) # os) = failures os"
| "failures ((m, Failed f) # os) = (m_id m, f) # failures os"

text \<open>The items of a batch that duplicate a row already stored for the user, and the items
  that neither do so nor pass validation.\<close>

definition storedDuplicates :: "objectId \<Rightarrow> smsItem list \<Rightarrow> sms list \<Rightarrow> smsItem list" where
  "storedDuplicates u ms ds = filter (\<lambda>m. stored u (m_id m) ds) ms"

definition rejected :: "objectId \<Rightarrow> smsItem list \<Rightarrow> sms list \<Rightarrow> smsItem list" where
  "rejected u ms ds = filter (\<lambda>m. \<not> stored u (m_id m) ds \<and> \<not> accepted u m) ms"

text \<open>The rows under one key of the unique index \<open>{ userId: 1, smsId: 1 }\<close>.\<close>

definition sameKey :: "objectId \<Rightarrow> string \<Rightarrow> sms \<Rightarrow> bool" where
  "sameKey u k d = (s_userId d = u \<and> smsId d = k)"

text \<open>The \<open>sms.id\<close> of the items of a batch that carry one.\<close>

fun itemIds :: "smsItem list \<Rightarrow> string list" where
  "itemIds [] = []"
| "itemIds (m # ms) = (case m_id m of None \<Rightarrow> itemIds ms | Some i \<Rightarrow> i # itemIds ms)"

text \<open>What is stored during the loop: what was stored before the call and what the
  accepted items before the current one carry.\<close>

definition seen :: "objectId \<Rightarrow> sms list \<Rightarrow> smsItem list \<Rightarrow> sms list \<Rightarrow> bool" where
  "seen u ds pre rs =
     (\<forall>i. stored u i rs = (stored u i ds \<or> list_ex (\<lambda>m0. m_id m0 = i \<and> accepted u m0) pre))"

section \<open>Example data\<close>

text \<open>A cast for identifiers: 24 hexadecimal digits, read without regard to letter case.\<close>

definition isObjectId :: "string \<Rightarrow> bool" where
  "isObjectId s = (length s = 24 \<and> list_all (\<lambda>c. c \<in> set ''0123456789abcdefABCDEF'') s)"

fun lowerHex :: "char \<Rightarrow> char" where
  "lowerHex c =
     (if c = CHR ''A'' then CHR ''a'' else if c = CHR ''B'' then CHR ''b''
      else if c = CHR ''C'' then CHR ''c'' else if c = CHR ''D'' then CHR ''d''
      else if c = CHR ''E'' then CHR ''e'' else if c = CHR ''F'' then CHR ''f'' else c)"

definition castHex :: "string \<Rightarrow> objectId option" where
  "castHex s = (if isObjectId s then Some (map lowerHex s) else None)"

text \<open>A clock that stands still.\<close>

definition clockAt :: "date \<Rightarrow> nat \<Rightarrow> date" where
  "clockAt t k = t"

definition user0 :: user where
  "user0 = create ''64b7f0c2a1d3e4f506172839'' ''9876543210'' ''111111'' 600000"

definition env0 :: env where
  "env0 = \<lparr>NODE_ENV = Some ''production'', STATIC_OTP = None, JWT_EXPIRE = None\<rparr>"

definition envDev :: env where
  "envDev = \<lparr>NODE_ENV = Some ''development'', STATIC_OTP = None, JWT_EXPIRE = None\<rparr>"

definition envStatic :: env where
  "envStatic = \<lparr>NODE_ENV = Some ''test'', STATIC_OTP = Some ''123456'', JWT_EXPIRE = None\<rparr>"

definition admin0 :: admin where
  "admin0 = \<lparr>a_id = ''a1'', a_email = ''root@example.com'', password = ''hash'',
             a_name = ''Root'', role = ''admin'', isActive = False\<rparr>"

definition order0 :: "orderStatus \<Rightarrow> order" where
  "order0 st = \<lparr>o_id = ''o1'', o_userId = ''64b7f0c2a1d3e4f506172839'', serviceId = ''s1'', serviceName = ''Wash'',
                pickupDate = 0, pickupTime = ''10:00'', o_status = st, o_address = None,
                o_notes = None, customerName = None, customerPhone = None\<rparr>"

text \<open>The key an operation filters on, and an operation without its sync time.\<close>

definition opKey :: "bulkOp \<Rightarrow> objectId \<times> string" where
  "opKey b = (f_userId b, f_phoneNumber b)"

definition unstampedOp :: "bulkOp \<Rightarrow> bulkOp" where
  "unstampedOp b = b\<lparr>s_syncedAt := 0\<rparr>"

definition contacts0 :: "contactItem list" where
  "contacts0 =
     [\<lparr>i_name = ''Asha'', i_phoneNumber = ''111'', i_email = None\<rparr>,
      \<lparr>i_name = ''Ben'', i_phoneNumber = ''222'', i_email = Some ''ben@example.com''\<rparr>,
      \<lparr>i_name = ''Asha K'', i_phoneNumber = ''111'', i_email = Some []\<rparr>]"

definition item1 :: smsItem where
  "item1 = \<lparr>m_id = Some ''1'', m_address = Some ''A'', m_body = Some ''hi'',
            m_date = Some 0, m_type = Some ''inbox''\<rparr>"

definition item2 :: smsItem where
  "item2 = \<lparr>m_id = Some ''2'', m_address = Some ''B'', m_body = Some ''yo'',
            m_date = Some 5, m_type = Some ''sent''\<rparr>"

definition item3 :: smsItem where
  "item3 = \<lparr>m_id = Some ''3'', m_address = Some ''C'', m_body = None,
            m_date = Some 7, m_type = Some ''inbox''\<rparr>"

definition itemBad :: smsItem where
  "itemBad = \<lparr>m_id = Some ''1'', m_address = Some ''Z'', m_body = None,
              m_date = Some 0, m_type = Some ''inbox''\<rparr>"

definition sms1 :: sms where
  "sms1 = \<lparr>s_userId = ''64b7f0c2a1d3e4f506172839'', smsId = ''1'', s_address = ''A'',
           s_body = ''hi'', s_date = 0, s_type = ''inbox''\<rparr>"

definition sms2 :: sms where
  "sms2 = \<lparr>s_userId = ''64b7f0c2a1d3e4f506172839'', smsId = ''2'', s_address = ''B'',
           s_body = ''yo'', s_date = 5, s_type = ''sent''\<rparr>"

section \<open>Lemmas on the user collection\<close>

lemma findOne_save:
  "findOne p us = Some u \<Longrightarrow> uid u' = uid u \<Longrightarrow> phoneNumber u' = p
     \<Longrightarrow> findOne p (save u' us) = Some u'"
  by (induction us) (auto simp: save_def)

lemma map_uid_save: "map uid (save u us) = map uid us"
  by (induction us) (auto simp: save_def)

lemma save_save: "uid u' = uid u \<Longrightarrow> save u' (save u us) = save u' us"
  by (induction us) (auto simp: save_def)

lemma findOne_phone: "findOne p us = Some u \<Longrightarrow> phoneNumber u = p"
  by (induction us) (auto split: if_splits)

lemma findOne_append_new:
  "findOne p us = None \<Longrightarrow> phoneNumber u = p \<Longrightarrow> findOne p (us @ [u]) = Some u"
  by (induction us) (auto split: if_splits)

lemma toString_nonempty: "toString n \<noteq> []"
  by (subst toString.simps) simp

lemma staticOrGenerated_nonempty: "staticOrGenerated ev r \<noteq> []"
  by (simp add: staticOrGenerated_def generateOTP_def toString_nonempty split: option.splits)

lemma phoneRegex_nonempty: "phoneRegex p \<Longrightarrow> p \<noteq> []"
  by (auto simp: phoneRegex_def)

lemma generateOTP_0: "generateOTP 0 = ''100000''"
  by (simp add: generateOTP_def toString.simps)

lemma generateOTP_7: "generateOTP 7 = ''100007''"
  by (simp add: generateOTP_def toString.simps)

lemma phoneRegex_example: "phoneRegex ''9876543210''"
  by (simp add: phoneRegex_def)

section \<open>OTP: what a request stores\<close>

lemma sendOtp_stores:
  assumes "phoneRegex p"
  shows "\<exists>u'. findOne p (snd (sendOtp ev t r nid (Some p) users)) = Some u'
           \<and> otp u' = Some (staticOrGenerated ev r) \<and> otpExpiry u' = Some (t + 600000)"
proof (cases "findOne p users")
  case None
  then show ?thesis using assms phoneRegex_nonempty [OF assms]
    by (simp add: sendOtp_def Let_def findOne_append_new create_def)
next
  case (Some u)
  let ?u' = "u\<lparr>otp := Some (staticOrGenerated ev r), otpExpiry := Some (t + 600000)\<rparr>"
  have "findOne p (save ?u' users) = Some ?u'"
    using findOne_save [OF Some, of ?u'] findOne_phone [OF Some] by simp
  then show ?thesis using assms phoneRegex_nonempty [OF assms] Some
    by (simp add: sendOtp_def Let_def)
qed

lemma sendOtp_existing:
  assumes "phoneRegex p" and "findOne p users = Some u"
  shows "snd (sendOtp ev t r nid (Some p) users)
           = save (u\<lparr>otp := Some (staticOrGenerated ev r), otpExpiry := Some (t + 600000)\<rparr>) users"
  using assms phoneRegex_nonempty [of p] by (simp add: sendOtp_def Let_def)

lemma resendOtp_existing:
  assumes "p \<noteq> []" and "findOne p users = Some u"
  shows "snd (resendOtp ev t r (Some p) users)
           = save (u\<lparr>otp := Some (generateOTP r), otpExpiry := Some (t + 600000)\<rparr>) users"
  using assms by (simp add: resendOtp_def Let_def)

lemma verifyOtp_mismatch:
  assumes "findOne p users = Some u" and "otp u = Some c2" and "otpExpiry u = Some e"
    and "now \<le> e" and "c2 \<noteq> c" and "p \<noteq> []" and "c \<noteq> []"
  shows "verifyOtp ev now (Some p) (Some c) users = (MismatchError, users)"
  using assms by (simp add: verifyOtp_def MismatchError_def)

lemma verifyOtp_expired:
  assumes "findOne p users = Some u" and "otpExpiry u = Some e" and "e < now"
    and "p \<noteq> []" and "c \<noteq> []"
  shows "verifyOtp ev now (Some p) (Some c) users = (ExpiredError, users)"
  using assms by (simp add: verifyOtp_def ExpiredError_def)

text \<open>Without the static override, and for a user that exists, \<open>resendOtp\<close> stores what
  \<open>sendOtp\<close> stores; without a user it answers 404 and stores nothing.\<close>

lemma resendOtp_not_found:
  "findOne p users = None \<Longrightarrow> p \<noteq> [] \<Longrightarrow>
     resendOtp ev t r (Some p) users = (NotFoundError, users)"
  by (simp add: resendOtp_def NotFoundError_def)

lemma resendOtp_agrees_without_static:
  "\<not> truthy (STATIC_OTP ev) \<Longrightarrow> phoneRegex p \<Longrightarrow> findOne p users = Some u \<Longrightarrow>
     snd (resendOtp ev t r (Some p) users) = snd (sendOtp ev t r n (Some p) users)"
  by (cases "STATIC_OTP ev")
     (auto simp: resendOtp_def sendOtp_def Let_def staticOrGenerated_def phoneRegex_def)

section \<open>Claims on OTP authentication\<close>

text \<open>
  Claim C1. After a successful \<open>verifyOtp(phoneNumber, code)\<close>, the user's two OTP fields
  are absent, and a second \<open>verifyOtp\<close> for the same phone number with the same code, at
  any later time, is answered with MismatchError: it does not succeed and it is not answered
  with ExpiredError. (An absent expiry is not before any date, and an absent code differs
  from every code sent.)
\<close>

theorem verifyOtp_replay_fails:
  assumes "success (fst (verifyOtp ev now (Some p) (Some c) users))"
    and "users' = snd (verifyOtp ev now (Some p) (Some c) users)"
  shows "(\<exists>u'. findOne p users' = Some u' \<and> otp u' = None \<and> otpExpiry u' = None
                \<and> isVerified u')
         \<and> verifyOtp ev now2 (Some p) (Some c) users' = (MismatchError, users')
         \<and> \<not> success (MismatchError :: (token \<times> userView) option reply)
         \<and> (MismatchError :: (token \<times> userView) option reply) \<noteq> ExpiredError"
proof -
  from assms obtain u where u: "findOne p users = Some u"
    by (auto simp: verifyOtp_def split: if_splits option.splits)
  let ?u' = "u\<lparr>isVerified := True, otp := None, otpExpiry := None\<rparr>"
  from assms u have ne: "p \<noteq> []" "c \<noteq> []" and users': "users' = save ?u' users"
    by (auto simp: verifyOtp_def Let_def split: if_splits option.splits)
  have "phoneNumber ?u' = p" using findOne_phone [OF u] by simp
  then have f: "findOne p users' = Some ?u'"
    unfolding users' using findOne_save [OF u, of ?u'] by simp
  then show ?thesis using ne
    by (simp add: verifyOtp_def MismatchError_def ExpiredError_def)
qed

theorem verifyOtp_replay_fails_witness:
  "success (fst (verifyOtp env0 1000 (Some ''9876543210'') (Some ''111111'') [user0]))
   \<and> verifyOtp env0 2000 (Some ''9876543210'') (Some ''111111'')
        (snd (verifyOtp env0 1000 (Some ''9876543210'') (Some ''111111'') [user0]))
      = (MismatchError,
         snd (verifyOtp env0 1000 (Some ''9876543210'') (Some ''111111'') [user0]))"
proof -
  have s: "success (fst (verifyOtp env0 1000 (Some ''9876543210'') (Some ''111111'') [user0]))"
    by (simp add: verifyOtp_def user0_def create_def Let_def)
  from verifyOtp_replay_fails [OF s refl, of 2000] s show ?thesis by blast
qed

text \<open>
  Claim C2, as stated, fails: a verification made after the new expiry is answered with
  ExpiredError, not MismatchError, although the code given is the stale one; and when the
  second request stores the code of the first again (the static override is set, or the
  draw repeats), the first code is not stale and verifies.
\<close>

theorem stale_code_counterexample:
  "fst (verifyOtp env0 700000 (Some ''9876543210'') (Some (generateOTP 0))
          (snd (sendOtp env0 1000 7 ''64b7f0c2a1d3e4f50617283a'' (Some ''9876543210'')
             (snd (sendOtp env0 0 0 ''64b7f0c2a1d3e4f50617283a'' (Some ''9876543210'')
                [user0])))))
     = ExpiredError
   \<and> (ExpiredError :: (token \<times> userView) option reply) \<noteq> MismatchError
   \<and> success
        (fst (verifyOtp envStatic 2000 (Some ''9876543210'') (Some (staticOrGenerated envStatic 0))
          (snd (sendOtp envStatic 1000 7 ''64b7f0c2a1d3e4f50617283a'' (Some ''9876543210'')
             (snd (sendOtp envStatic 0 0 ''64b7f0c2a1d3e4f50617283a'' (Some ''9876543210'')
                [user0]))))))
   \<and> \<not> success (MismatchError :: (token \<times> userView) option reply)"
  by (simp add: verifyOtp_def sendOtp_def phoneRegex_example Let_def user0_def create_def
      save_def env0_def envStatic_def staticOrGenerated_def generateOTP_0 generateOTP_7
      ExpiredError_def MismatchError_def)

text \<open>
  Claim C2, amended. For every phone number with an existing user, a second \<open>requestOtp\<close>
  (or a \<open>resendOtp\<close>) overwrites the stored code and expiry of that same user document
  with the code of the second request and its clock plus 10 minutes, nothing else in the
  collection being changed; and a \<open>verifyOtp\<close> with the first code, when that code
  differs from the one now stored and the call is made no later than the new expiry, is
  answered with MismatchError.
\<close>

theorem second_request_overwrites:
  assumes ex: "findOne p users = Some u0" and re: "phoneRegex p"
    and first: "users1 = snd (sendOtp ev t1 r1 n1 (Some p) users)"
    and c1: "c1 = staticOrGenerated ev r1"
    and second: "(users2 = snd (sendOtp ev t2 r2 n2 (Some p) users1)
                    \<and> c2 = staticOrGenerated ev r2)
                 \<or> (users2 = snd (resendOtp ev t2 r2 (Some p) users1)
                    \<and> c2 = generateOTP r2)"
    and u2: "u2 = u0\<lparr>otp := Some c2, otpExpiry := Some (t2 + 600000)\<rparr>"
  shows "findOne p users1 = Some (u0\<lparr>otp := Some c1, otpExpiry := Some (t1 + 600000)\<rparr>)
       \<and> users2 = save u2 users
       \<and> map uid users2 = map uid users
       \<and> findOne p users2 = Some u2
       \<and> (c2 \<noteq> c1 \<longrightarrow> now \<le> t2 + 600000 \<longrightarrow>
            verifyOtp ev now (Some p) (Some c1) users2 = (MismatchError, users2))"
proof -
  have ne: "p \<noteq> []" using re by (rule phoneRegex_nonempty)
  let ?u1 = "u0\<lparr>otp := Some c1, otpExpiry := Some (t1 + 600000)\<rparr>"
  have s1: "users1 = save ?u1 users"
    using first sendOtp_existing [OF re ex] by (simp add: c1)
  have f1: "findOne p users1 = Some ?u1"
    unfolding s1 using findOne_save [OF ex, of ?u1] findOne_phone [OF ex] by simp
  have "users2 = save (?u1\<lparr>otp := Some c2, otpExpiry := Some (t2 + 600000)\<rparr>) users1"
    using second sendOtp_existing [OF re f1] resendOtp_existing [OF ne f1] by auto
  then have s2': "users2 = save u2 users1" by (simp add: u2)
  have s2: "users2 = save u2 users"
    unfolding s2' s1 by (rule save_save) (simp add: u2)
  have f2: "findOne p users2 = Some u2"
    unfolding s2 using findOne_save [OF ex, of u2] findOne_phone [OF ex] by (simp add: u2)
  have ids: "map uid users2 = map uid users"
    by (simp add: s2 map_uid_save)
  have c1ne: "c1 \<noteq> []" by (simp add: c1 staticOrGenerated_nonempty)
  have "verifyOtp ev now (Some p) (Some c1) users2 = (MismatchError, users2)"
    if "c2 \<noteq> c1" "now \<le> t2 + 600000"
    using verifyOtp_mismatch [OF f2, of c2 "t2 + 600000" now c1] that ne c1ne
    by (simp add: u2)
  with f1 s2 ids f2 show ?thesis by blast
qed

theorem second_request_overwrites_witness:
  "snd (sendOtp env0 1000 7 ''64b7f0c2a1d3e4f50617283a'' (Some ''9876543210'')
          (snd (sendOtp env0 0 0 ''64b7f0c2a1d3e4f50617283a'' (Some ''9876543210'') [user0])))
     = [user0\<lparr>otp := Some ''100007'', otpExpiry := Some 601000\<rparr>]
   \<and> snd (resendOtp env0 1000 7 (Some ''9876543210'')
          (snd (sendOtp env0 0 0 ''64b7f0c2a1d3e4f50617283a'' (Some ''9876543210'') [user0])))
     = [user0\<lparr>otp := Some ''100007'', otpExpiry := Some 601000\<rparr>]
   \<and> verifyOtp env0 2000 (Some ''9876543210'') (Some ''100000'')
         [user0\<lparr>otp := Some ''100007'', otpExpiry := Some 601000\<rparr>]
       = (MismatchError, [user0\<lparr>otp := Some ''100007'', otpExpiry := Some 601000\<rparr>])"
proof -
  let ?users1 = "snd (sendOtp env0 0 0 ''64b7f0c2a1d3e4f50617283a'' (Some ''9876543210'') [user0])"
  let ?A = "snd (sendOtp env0 1000 7 ''64b7f0c2a1d3e4f50617283a'' (Some ''9876543210'') ?users1)"
  let ?B = "snd (resendOtp env0 1000 7 (Some ''9876543210'') ?users1)"
  let ?u2 = "user0\<lparr>otp := Some ''100007'', otpExpiry := Some (1000 + 600000)\<rparr>"
  have ex: "findOne ''9876543210'' [user0] = Some user0"
    by (simp add: user0_def create_def)
  have c1: "''100000'' = staticOrGenerated env0 0"
    and c2: "''100007'' = staticOrGenerated env0 7"
    by (simp_all add: staticOrGenerated_def env0_def generateOTP_0 generateOTP_7)
  have g: "''100007'' = generateOTP 7" by (simp add: generateOTP_7)
  have sv: "save ?u2 [user0] = [?u2]" by (simp add: save_def)
  have d: "''100007'' \<noteq> ''100000''" and w: "(2000::int) \<le> 1000 + 600000" by simp_all
  note A = second_request_overwrites [where ?t1.0 = 0 and ?n1.0 = "''64b7f0c2a1d3e4f50617283a''"
      and ?t2.0 = 1000 and ?n2.0 = "''64b7f0c2a1d3e4f50617283a''" and now = 2000,
      OF ex phoneRegex_example refl c1 disjI1 [OF conjI [OF refl c2]] refl]
  note B = second_request_overwrites [where ?t1.0 = 0 and ?n1.0 = "''64b7f0c2a1d3e4f50617283a''"
      and ?t2.0 = 1000 and now = 2000,
      OF ex phoneRegex_example refl c1 disjI2 [OF conjI [OF refl g]] refl]
  from A sv have a: "?A = [?u2]" by simp
  from B sv have b: "?B = [?u2]" by simp
  from A d w have "verifyOtp env0 2000 (Some ''9876543210'') (Some ''100000'') ?A
                     = (MismatchError, ?A)" by blast
  with a b show ?thesis by simp
qed

text \<open>
  Claim C5. For every user whose stored OTP expiry is before the current time,
  \<open>verifyOtp\<close> (called with a phone number and a code) is answered with ExpiredError
  whatever the code, the stored one included: the expiry is checked before the code. The
  expiry a request stores is 10 minutes (600000 ms) after its clock, so verifying the code
  just sent later than that is answered with ExpiredError.
\<close>

theorem verifyOtp_expired_first:
  "(findOne p users = Some u \<longrightarrow> otpExpiry u = Some e \<longrightarrow> e < now \<longrightarrow> p \<noteq> [] \<longrightarrow> c \<noteq> [] \<longrightarrow>
      verifyOtp ev now (Some p) (Some c) users = (ExpiredError, users))
   \<and> (findOne p users = Some u \<longrightarrow> otpExpiry u = Some e \<longrightarrow> e < now \<longrightarrow> p \<noteq> [] \<longrightarrow>
        otp u = Some c \<longrightarrow> c \<noteq> [] \<longrightarrow>
        verifyOtp ev now (Some p) (Some c) users = (ExpiredError, users))
   \<and> (phoneRegex p' \<longrightarrow> t + 600000 < now' \<longrightarrow>
        verifyOtp ev now' (Some p') (Some (staticOrGenerated ev r))
            (snd (sendOtp ev t r n (Some p') users'))
          = (ExpiredError, snd (sendOtp ev t r n (Some p') users')))"
proof -
  have "verifyOtp ev now' (Some p') (Some (staticOrGenerated ev r))
            (snd (sendOtp ev t r n (Some p') users'))
          = (ExpiredError, snd (sendOtp ev t r n (Some p') users'))"
    if re: "phoneRegex p'" and late: "t + 600000 < now'"
  proof -
    from sendOtp_stores [OF re, of ev t r n users'] obtain u'
      where "findOne p' (snd (sendOtp ev t r n (Some p') users')) = Some u'"
        and "otpExpiry u' = Some (t + 600000)" by blast
    then show ?thesis
      using verifyOtp_expired late phoneRegex_nonempty [OF re] staticOrGenerated_nonempty
      by blast
  qed
  then show ?thesis using verifyOtp_expired by blast
qed

theorem verifyOtp_expired_first_witness:
  "otp user0 = Some ''111111''
   \<and> verifyOtp env0 600001 (Some ''9876543210'') (Some ''111111'') [user0]
       = (ExpiredError, [user0])
   \<and> verifyOtp env0 600001 (Some ''9876543210'') (Some (staticOrGenerated env0 0))
         (snd (sendOtp env0 0 0 ''64b7f0c2a1d3e4f50617283a'' (Some ''9876543210'') [user0]))
       = (ExpiredError, snd (sendOtp env0 0 0 ''64b7f0c2a1d3e4f50617283a'' (Some ''9876543210'') [user0]))"
proof -
  have f: "findOne ''9876543210'' [user0] = Some user0"
    and e: "otpExpiry user0 = Some 600000" and o: "otp user0 = Some ''111111''"
    by (simp_all add: user0_def create_def)
  have l: "(600000::int) < 600001" "(0::int) + 600000 < 600001"
    and ne: "''9876543210'' \<noteq> []" "''111111'' \<noteq> []"
    by simp_all
  from verifyOtp_expired_first [of "''9876543210''" "[user0]" user0 600000 600001 "''111111''"
      env0 "''9876543210''" 0 600001 0 "''64b7f0c2a1d3e4f50617283a''" "[user0]"]
    f e o l ne phoneRegex_example
  show ?thesis by blast
qed

text \<open>
  Claim C6, evaluated where it fails. With the static override configured
  (\<open>STATIC_OTP = 123456\<close>) and the user existing, \<open>sendOtp\<close> stores and returns the
  configured value, and \<open>resendOtp\<close> stores a generated code and returns none.
\<close>

theorem resendOtp_ignores_static_otp:
  "sendOtp envStatic 0 0 ''64b7f0c2a1d3e4f50617283a'' (Some ''9876543210'') [user0]
     = (Reply 200 True ''OTP sent successfully'' (Some ''123456''),
        [user0\<lparr>otp := Some ''123456'', otpExpiry := Some 600000\<rparr>])
   \<and> resendOtp envStatic 0 0 (Some ''9876543210'') [user0]
     = (Reply 200 True ''OTP resent successfully'' None,
        [user0\<lparr>otp := Some ''100000'', otpExpiry := Some 600000\<rparr>])"
  by (simp add: sendOtp_def resendOtp_def phoneRegex_example Let_def user0_def create_def
      save_def envStatic_def staticOrGenerated_def generateOTP_0)

text \<open>
  Claim C7. In production mode the reply of \<open>requestOtp\<close> does not depend on the code
  generated: two production runs that differ in the random draw send the same reply, and
  without the static override the reply has no \<open>otp\<close> field. A reply carries an \<open>otp\<close>
  field only in development mode or when the static override is set.
\<close>

theorem sendOtp_production_reply:
  "(NODE_ENV ev = Some ''production'' \<longrightarrow>
      fst (sendOtp ev now r1 n1 phone users) = fst (sendOtp ev now r2 n2 phone users))
   \<and> (NODE_ENV ev = Some ''production'' \<longrightarrow> \<not> truthy (STATIC_OTP ev) \<longrightarrow>
        payload (fst (sendOtp ev now r1 n1 phone users)) = None)
   \<and> (payload (fst (sendOtp ev now r1 n1 phone users)) \<noteq> None \<longrightarrow>
        NODE_ENV ev = Some ''development'' \<or> truthy (STATIC_OTP ev))"
  by (cases "STATIC_OTP ev")
     (auto simp: sendOtp_def Let_def staticOrGenerated_def split: option.splits)

theorem sendOtp_production_reply_witness:
  "fst (sendOtp env0 0 0 ''64b7f0c2a1d3e4f50617283a'' (Some ''9876543210'') [user0])
     = fst (sendOtp env0 0 7 ''64b7f0c2a1d3e4f50617283a'' (Some ''9876543210'') [user0])
   \<and> payload (fst (sendOtp env0 0 0 ''64b7f0c2a1d3e4f50617283a'' (Some ''9876543210'') [user0])) = None
   \<and> map otp (snd (sendOtp env0 0 0 ''64b7f0c2a1d3e4f50617283a'' (Some ''9876543210'') [user0]))
       \<noteq> map otp (snd (sendOtp env0 0 7 ''64b7f0c2a1d3e4f50617283a'' (Some ''9876543210'') [user0]))
   \<and> payload (fst (sendOtp envDev 0 0 ''64b7f0c2a1d3e4f50617283a'' (Some ''9876543210'') [user0])) \<noteq> None
   \<and> (NODE_ENV envDev = Some ''development'' \<or> truthy (STATIC_OTP envDev))"
proof -
  have p: "NODE_ENV env0 = Some ''production''" and q: "\<not> truthy (STATIC_OTP env0)"
    by (simp_all add: env0_def)
  have d: "payload (fst (sendOtp envDev 0 0 ''64b7f0c2a1d3e4f50617283a'' (Some ''9876543210'') [user0])) \<noteq> None"
    by (simp add: sendOtp_def phoneRegex_example Let_def envDev_def)
  have s: "map otp (snd (sendOtp env0 0 0 ''64b7f0c2a1d3e4f50617283a'' (Some ''9876543210'') [user0]))
       \<noteq> map otp (snd (sendOtp env0 0 7 ''64b7f0c2a1d3e4f50617283a'' (Some ''9876543210'') [user0]))"
    by (simp add: sendOtp_def phoneRegex_example Let_def user0_def create_def save_def
        env0_def staticOrGenerated_def generateOTP_0 generateOTP_7)
  note A = sendOtp_production_reply
             [of env0 0 0 "''64b7f0c2a1d3e4f50617283a''" "Some ''9876543210''" "[user0]" 7 "''64b7f0c2a1d3e4f50617283a''"]
  note B = sendOtp_production_reply
             [of envDev 0 0 "''64b7f0c2a1d3e4f50617283a''" "Some ''9876543210''" "[user0]" 0 "''64b7f0c2a1d3e4f50617283a''"]
  from A p have a1: "fst (sendOtp env0 0 0 ''64b7f0c2a1d3e4f50617283a'' (Some ''9876543210'') [user0])
     = fst (sendOtp env0 0 7 ''64b7f0c2a1d3e4f50617283a'' (Some ''9876543210'') [user0])" by blast
  from A p q
  have a2: "payload (fst (sendOtp env0 0 0 ''64b7f0c2a1d3e4f50617283a'' (Some ''9876543210'') [user0])) = None"
    by blast
  from B d have b: "NODE_ENV envDev = Some ''development'' \<or> truthy (STATIC_OTP envDev)"
    by blast
  from a1 a2 s d b show ?thesis by blast
qed

section \<open>Claims on the access guard and on orders\<close>

lemma split_sp_nospace: "CHR '' '' \<notin> set t \<Longrightarrow> split_sp t = [t]"
  by (induction t) auto

lemma bearer_token:
  "CHR '' '' \<notin> set t \<Longrightarrow> bearer (Some (''Bearer '' @ t)) = Some t"
  by (simp add: bearer_def split_sp_nospace)

text \<open>
  Claim C8. For an admin whose active flag is false, a login with the right password is
  rejected (401, account deactivated), while a token that still verifies for that admin
  passes \<open>adminProtect\<close>, which looks the admin up and does not read the active flag.
\<close>

theorem deactivated_admin_token_passes:
  assumes "findOneAdmin mail admins = Some a" and "\<not> isActive a"
    and "mail \<noteq> []" and "pw \<noteq> []" and "compare pw (password a)"
    and "t \<noteq> []" and "CHR '' '' \<notin> set t"
    and "jwtVerify t = Some (a_id a)" and "findAdminById (a_id a) admins = Some a"
  shows "adminLogin ev compare (Some mail) (Some pw) admins
           = Reply 401 False ''Account is deactivated'' None
         \<and> adminProtect jwtVerify (Some (''Bearer '' @ t)) admins = Next a"
  using assms bearer_token [of t] by (simp add: adminLogin_def adminProtect_def)

theorem deactivated_admin_token_passes_witness:
  "adminLogin env0 (\<lambda>pw h. pw = ''secret'' \<and> h = ''hash'') (Some ''root@example.com'')
       (Some ''secret'') [admin0]
     = Reply 401 False ''Account is deactivated'' None
   \<and> adminProtect (\<lambda>t. if t = ''tok'' then Some ''a1'' else None) (Some ''Bearer tok'') [admin0]
     = Next admin0"
  using deactivated_admin_token_passes [of "''root@example.com''" "[admin0]" admin0 "''secret''"
      "\<lambda>pw h. pw = ''secret'' \<and> h = ''hash''" "''tok''"
      "\<lambda>t. if t = ''tok'' then Some ''a1'' else None" env0]
  by (simp add: admin0_def)

lemma findOrderById_saveOrder:
  "findOrderById i xs = Some x \<Longrightarrow> o_id x' = o_id x \<Longrightarrow>
     findOrderById i (saveOrder x' xs) = Some x'"
  by (induction xs) (auto simp: saveOrder_def split: if_splits)

text \<open>
  Claim C9. For every existing order owned by the caller, cancelling is answered with
  InvalidStateError exactly when the status is delivered or cancelled, the orders being
  left as they were; from every other status it succeeds and the stored status becomes
  cancelled.
\<close>

theorem cancel_order_by_status:
  assumes "findOrderById i orders = Some x" and "o_userId x = uid reqUser"
  shows "(o_status x = Delivered \<or> o_status x = Cancelled \<longrightarrow>
            cancelOrder reqUser i orders = (InvalidStateError (o_status x), orders))
       \<and> (o_status x \<noteq> Delivered \<and> o_status x \<noteq> Cancelled \<longrightarrow>
            cancelOrder reqUser i orders
              = (Reply 200 True ''Order cancelled successfully''
                   (Some (x\<lparr>o_status := Cancelled\<rparr>)),
                 saveOrder (x\<lparr>o_status := Cancelled\<rparr>) orders)
            \<and> findOrderById i (snd (cancelOrder reqUser i orders))
                = Some (x\<lparr>o_status := Cancelled\<rparr>)
            \<and> (\<forall>st. fst (cancelOrder reqUser i orders) \<noteq> InvalidStateError st))"
  using assms findOrderById_saveOrder [OF assms(1), of "x\<lparr>o_status := Cancelled\<rparr>"]
  by (simp add: cancelOrder_def InvalidStateError_def Let_def)

theorem cancel_order_by_status_witness:
  "cancelOrder user0 ''o1'' [order0 Delivered] = (InvalidStateError Delivered, [order0 Delivered])
   \<and> cancelOrder user0 ''o1'' [order0 Cancelled]
       = (InvalidStateError Cancelled, [order0 Cancelled])
   \<and> snd (cancelOrder user0 ''o1'' [order0 Picked]) = [order0 Cancelled]
   \<and> success (fst (cancelOrder user0 ''o1'' [order0 Picked]))"
proof -
  have f: "findOrderById ''o1'' [order0 st] = Some (order0 st)"
    and o: "o_userId (order0 st) = uid user0" and s: "o_status (order0 st) = st" for st
    by (simp_all add: order0_def user0_def create_def)
  have c: "(order0 Picked)\<lparr>o_status := Cancelled\<rparr> = order0 Cancelled"
    by (simp add: order0_def)
  from cancel_order_by_status [OF f o, of Delivered]
  have a: "cancelOrder user0 ''o1'' [order0 Delivered]
             = (InvalidStateError Delivered, [order0 Delivered])"
    by (simp add: s)
  from cancel_order_by_status [OF f o, of Cancelled]
  have b: "cancelOrder user0 ''o1'' [order0 Cancelled]
             = (InvalidStateError Cancelled, [order0 Cancelled])"
    by (simp add: s)
  from cancel_order_by_status [OF f o, of Picked]
  have d: "cancelOrder user0 ''o1'' [order0 Picked]
             = (Reply 200 True ''Order cancelled successfully'' (Some (order0 Cancelled)),
                saveOrder (order0 Cancelled) [order0 Picked])"
    by (simp add: s c)
  have "saveOrder (order0 Cancelled) [order0 Picked] = [order0 Cancelled]"
    by (simp add: saveOrder_def order0_def)
  with a b d show ?thesis by simp
qed

section \<open>Contact sync: upserts\<close>

lemma matches_key: "matches b d \<longleftrightarrow> contactKey d = opKey b"
  by (auto simp: matches_def contactKey_def opKey_def)

lemma docs_runOp: "docs (runOp b r) = updateOne b (docs r)"
  by (simp add: runOp_def split: option.splits)

lemma docs_fold_runOp: "docs (fold runOp ops r) = fold updateOne ops (docs r)"
  by (induction ops arbitrary: r) (simp_all add: docs_runOp)

lemma docs_bulkWrite: "docs (bulkWrite ops ds) = fold updateOne ops ds"
  by (simp add: bulkWrite_def docs_fold_runOp)

lemma keys_updateOne:
  "map contactKey (updateOne b ds) =
     (if opKey b \<in> contactKey ` set ds then map contactKey ds
      else map contactKey ds @ [opKey b])"
  by (induction ds)
     (auto simp: matches_key applySet_def upserted_def contactKey_def opKey_def)

lemma distinct_updateOne:
  "distinct (map contactKey ds) \<Longrightarrow> distinct (map contactKey (updateOne b ds))"
  by (simp add: keys_updateOne)

lemma distinct_fold_updateOne:
  "distinct (map contactKey ds) \<Longrightarrow> distinct (map contactKey (fold updateOne ops ds))"
  by (induction ops arbitrary: ds) (simp_all add: distinct_updateOne)

lemma keyset_updateOne:
  "contactKey ` set (updateOne b ds) = insert (opKey b) (contactKey ` set ds)"
  by (induction ds)
     (auto simp: matches_key applySet_def upserted_def contactKey_def opKey_def)

lemma key_in_updateOne: "opKey b \<in> contactKey ` set (updateOne b ds)"
  by (simp add: keyset_updateOne)

lemma keys_mono_updateOne:
  "k \<in> contactKey ` set ds \<Longrightarrow> k \<in> contactKey ` set (updateOne b ds)"
  by (simp add: keyset_updateOne)

lemma keys_mono_fold:
  "k \<in> contactKey ` set ds \<Longrightarrow> k \<in> contactKey ` set (fold updateOne ops ds)"
  by (induction ops arbitrary: ds) (simp_all add: keys_mono_updateOne)

lemma keys_fold:
  "b \<in> set ops \<Longrightarrow> opKey b \<in> contactKey ` set (fold updateOne ops ds)"
proof (induction ops arbitrary: ds)
  case Nil
  then show ?case by simp
next
  case (Cons a ops)
  show ?case
  proof (cases "b = a")
    case True
    then show ?thesis using keys_mono_fold [OF key_in_updateOne] by simp
  next
    case False
    with Cons show ?thesis by simp
  qed
qed

lemma updateOne_overwrite:
  "opKey c = opKey d \<Longrightarrow> updateOne c (updateOne d ds) = updateOne c ds"
  by (induction ds)
     (auto simp: matches_def applySet_def upserted_def opKey_def)

lemma key_applySet: "contactKey (applySet b d) = contactKey d"
  by (simp add: applySet_def contactKey_def)

lemma key_upserted: "contactKey (upserted b) = opKey b"
  by (simp add: upserted_def contactKey_def opKey_def)

lemma updateOne_commute:
  "opKey c \<noteq> opKey d \<Longrightarrow> opKey d \<in> contactKey ` set ds \<Longrightarrow>
     updateOne c (updateOne d ds) = updateOne d (updateOne c ds)"
proof (induction ds)
  case Nil
  then show ?case by simp
next
  case (Cons a ds)
  show ?case
  proof (cases "contactKey a = opKey d")
    case True
    with Cons.prems show ?thesis by (simp add: matches_key key_applySet)
  next
    case d: False
    show ?thesis
    proof (cases "contactKey a = opKey c")
      case True
      with d show ?thesis by (simp add: matches_key key_applySet)
    next
      case False
      with d Cons show ?thesis by (simp add: matches_key)
    qed
  qed
qed

lemma updateOne_absorb:
  "\<forall>b \<in> set ops. opKey b \<in> contactKey ` set ds \<Longrightarrow>
     updateOne c (fold updateOne ops (updateOne c ds)) = updateOne c (fold updateOne ops ds)"
proof (induction ops arbitrary: ds)
  case Nil
  show ?case by (simp add: updateOne_overwrite)
next
  case (Cons d ops)
  have pres: "\<forall>b \<in> set ops. opKey b \<in> contactKey ` set (updateOne d ds)"
    using Cons.prems by (auto intro: keys_mono_updateOne)
  show ?case
  proof (cases "opKey d = opKey c")
    case True
    then show ?thesis by (simp add: updateOne_overwrite)
  next
    case False
    then have "updateOne d (updateOne c ds) = updateOne c (updateOne d ds)"
      using Cons.prems updateOne_commute [of c d ds] by auto
    then show ?thesis using Cons.IH [OF pres] by simp
  qed
qed

lemma fold_updateOne_idem:
  "fold updateOne ops (fold updateOne ops ds) = fold updateOne ops ds"
proof (induction ops rule: rev_induct)
  case Nil
  show ?case by simp
next
  case (snoc c ops)
  let ?s1 = "fold updateOne ops ds"
  have "\<forall>b \<in> set ops. opKey b \<in> contactKey ` set ?s1"
    by (simp add: keys_fold)
  then have "updateOne c (fold updateOne ops (updateOne c ?s1)) = updateOne c (fold updateOne ops ?s1)"
    by (rule updateOne_absorb)
  then show ?case using snoc by simp
qed

lemma unstamped_updateOne:
  "map unstamped (updateOne b ds) = updateOne (unstampedOp b) (map unstamped ds)"
  by (induction ds)
     (auto simp: matches_def applySet_def upserted_def unstamped_def unstampedOp_def)

lemma unstamped_fold:
  "map unstamped (fold updateOne ops ds) = fold updateOne (map unstampedOp ops) (map unstamped ds)"
  by (induction ops arbitrary: ds) (simp_all add: unstamped_updateOne)

lemma unstampedOp_bulkOps:
  "map unstampedOp (bulkOps clock k u cs) = map unstampedOp (bulkOps clock' k' u cs)"
  by (induction cs arbitrary: k k') (simp_all add: unstampedOp_def)

lemma findById_update:
  "findById i (findByIdAndUpdate i v us) = map_option (\<lambda>u. u\<lparr>contactPermission := v\<rparr>) (findById i us)"
  by (induction us) auto

lemma findByIdAndUpdate_idem:
  "findByIdAndUpdate i v (findByIdAndUpdate i v us) = findByIdAndUpdate i v us"
  by (induction us) auto

lemma withOwn_permission:
  "withOwn (u\<lparr>contactPermission := v\<rparr>) own cs = withOwn u own cs"
  by (simp add: withOwn_def)

lemma unstamped_key: "map contactKey (map unstamped ds) = map contactKey ds"
  by (simp add: unstamped_def contactKey_def)

lemma bulk_twice:
  "map unstamped (fold updateOne (bulkOps c2 0 u cs) (fold updateOne (bulkOps c1 0 u cs) ds))
     = map unstamped (fold updateOne (bulkOps c1 0 u cs) ds)"
proof -
  have "map unstampedOp (bulkOps c2 0 u cs) = map unstampedOp (bulkOps c1 0 u cs)"
    by (rule unstampedOp_bulkOps)
  then show ?thesis by (simp add: unstamped_fold fold_updateOne_idem)
qed

lemma syncContacts_docs:
  "snd (snd (syncContacts clock u contacts own (us, ds))) = ds
   \<or> (\<exists>ops. snd (snd (syncContacts clock u contacts own (us, ds))) = fold updateOne ops ds)"
  by (auto simp: syncContacts_def Let_def docs_bulkWrite split: option.splits)

lemma reachable_distinct: "reachable ds \<Longrightarrow> distinct (map contactKey ds)"
proof (induction rule: reachable.induct)
  case empty
  show ?case by simp
next
  case (sync ds clock userId contacts own us)
  then show ?case
    using syncContacts_docs [of clock userId contacts own us ds]
    by (auto simp: distinct_fold_updateOne)
next
  case (delete ds userId us)
  then show ?case by (simp add: deleteMyContacts_def distinct_map_filter)
qed

text \<open>
  Claim C3, as stated, fails: the second call refreshes \<open>syncedAt\<close>, so the rows it
  leaves are not the rows of the first call when the clock has moved.
\<close>

theorem resync_refreshes_syncedAt_counterexample:
  "set (snd (snd (syncContacts (clockAt 9) ''64b7f0c2a1d3e4f506172839'' (Some contacts0) None
          (snd (syncContacts (clockAt 5) ''64b7f0c2a1d3e4f506172839'' (Some contacts0) None
             ([user0], []))))))
   \<noteq> set (snd (snd (syncContacts (clockAt 5) ''64b7f0c2a1d3e4f506172839'' (Some contacts0)
             None ([user0], []))))"
  by (simp add: syncContacts_def contacts0_def user0_def create_def withOwn_def Let_def
      docs_bulkWrite matches_def upserted_def applySet_def clockAt_def doubleton_eq_iff)

text \<open>
  Claim C3, amended. For every user and every batch, a second \<open>syncContacts\<close> with the
  same request leaves the contact rows of the first call up to their \<open>syncedAt\<close>: the
  same \<open>(userId, phoneNumber)\<close> keys in the same order, hence the same number of rows,
  each with the same name and email; only \<open>syncedAt\<close>, which every sync overwrites
  with its own clock, is refreshed (with an unchanged clock the collection is equal). The
  user collection is left as the first call left it. Every collection the writing handlers
  reach from the empty one has no two rows with the same \<open>(userId, phoneNumber)\<close>.
\<close>

theorem syncContacts_idempotent:
  assumes "syncContacts clock1 userId contacts own (us, ds) = (r1, us1, ds1)"
    and "syncContacts clock2 userId contacts own (us1, ds1) = (r2, us2, ds2)"
  shows "us2 = us1
       \<and> map unstamped ds2 = map unstamped ds1
       \<and> map contactKey ds2 = map contactKey ds1
       \<and> length ds2 = length ds1
       \<and> (clock2 = clock1 \<longrightarrow> ds2 = ds1)
       \<and> (reachable ds \<longrightarrow> reachable ds2 \<and> distinct (map contactKey ds2))
       \<and> (reachable ds' \<longrightarrow> distinct (map contactKey ds'))"
proof -
  have core: "us2 = us1 \<and> map unstamped ds2 = map unstamped ds1 \<and> (clock2 = clock1 \<longrightarrow> ds2 = ds1)"
  proof (cases contacts)
    case None
    with assms show ?thesis by (simp add: syncContacts_def)
  next
    case (Some cs)
    show ?thesis
    proof (cases "cs = []")
      case True
      with Some assms show ?thesis by (simp add: syncContacts_def)
    next
      case ne: False
      show ?thesis
      proof (cases "findById userId us")
        case None
        with Some ne assms show ?thesis by (simp add: syncContacts_def)
      next
        case Some2: (Some u)
        let ?cs = "withOwn u own cs"
        from assms(1) Some ne Some2
        have us1: "us1 = findByIdAndUpdate userId True us"
          and ds1: "ds1 = fold updateOne (bulkOps clock1 0 userId ?cs) ds"
          by (simp_all add: syncContacts_def Let_def docs_bulkWrite)
        have f: "findById userId us1 = Some (u\<lparr>contactPermission := True\<rparr>)"
          by (simp add: us1 findById_update Some2)
        from assms(2) Some ne f
        have us2: "us2 = findByIdAndUpdate userId True us1"
          and ds2: "ds2 = fold updateOne (bulkOps clock2 0 userId ?cs) ds1"
          by (simp_all add: syncContacts_def Let_def docs_bulkWrite withOwn_permission)
        show ?thesis
          by (simp add: us2 us1 findByIdAndUpdate_idem ds2 ds1 bulk_twice fold_updateOne_idem)
      qed
    qed
  qed
  then have u: "map unstamped ds2 = map unstamped ds1" by blast
  have k: "map contactKey ds2 = map contactKey ds1"
    using arg_cong [OF u, of "map contactKey"] by (simp only: unstamped_key)
  have l: "length ds2 = length ds1"
    using arg_cong [OF u, of length] by simp
  have r: "reachable ds2" if "reachable ds"
  proof -
    have "reachable ds1"
      using reachable.sync [OF that, of clock1 userId contacts own us] assms(1) by simp
    then show ?thesis
      using reachable.sync [of ds1 clock2 userId contacts own us1] assms(2) by simp
  qed
  from core k l r reachable_distinct show ?thesis by blast
qed

theorem syncContacts_idempotent_witness:
  "length (snd (snd (syncContacts (clockAt 5) ''64b7f0c2a1d3e4f506172839'' (Some contacts0) (Some ''9876543210'')
             ([user0], [])))) = 3
   \<and> map unstamped
        (snd (snd (syncContacts (clockAt 9) ''64b7f0c2a1d3e4f506172839'' (Some contacts0) (Some ''9876543210'')
           (snd (syncContacts (clockAt 5) ''64b7f0c2a1d3e4f506172839'' (Some contacts0) (Some ''9876543210'')
              ([user0], []))))))
      = map unstamped
          (snd (snd (syncContacts (clockAt 5) ''64b7f0c2a1d3e4f506172839'' (Some contacts0) (Some ''9876543210'')
             ([user0], []))))
   \<and> distinct (map contactKey
        (snd (snd (syncContacts (clockAt 9) ''64b7f0c2a1d3e4f506172839'' (Some contacts0) (Some ''9876543210'')
           (snd (syncContacts (clockAt 5) ''64b7f0c2a1d3e4f506172839'' (Some contacts0) (Some ''9876543210'')
              ([user0], [])))))))
   \<and> snd (snd (syncContacts (clockAt 5) ''64b7f0c2a1d3e4f506172839'' (Some contacts0) (Some ''9876543210'')
           (snd (syncContacts (clockAt 5) ''64b7f0c2a1d3e4f506172839'' (Some contacts0) (Some ''9876543210'')
              ([user0], [])))))
      = snd (snd (syncContacts (clockAt 5) ''64b7f0c2a1d3e4f506172839'' (Some contacts0) (Some ''9876543210'')
           ([user0], [])))"
proof -
  let ?once = "syncContacts (clockAt 5) ''64b7f0c2a1d3e4f506172839'' (Some contacts0) (Some ''9876543210'') ([user0], [])"
  let ?twice = "syncContacts (clockAt 9) ''64b7f0c2a1d3e4f506172839'' (Some contacts0) (Some ''9876543210'') (snd ?once)"
  have e1: "?once = (fst ?once, fst (snd ?once), snd (snd ?once))" by simp
  let ?again = "syncContacts (clockAt 5) ''64b7f0c2a1d3e4f506172839'' (Some contacts0) (Some ''9876543210'') (snd ?once)"
  have e3: "syncContacts (clockAt 5) ''64b7f0c2a1d3e4f506172839'' (Some contacts0) (Some ''9876543210'')
              (fst (snd ?once), snd (snd ?once))
            = (fst ?again, fst (snd ?again), snd (snd ?again))" by simp
  have e2: "syncContacts (clockAt 9) ''64b7f0c2a1d3e4f506172839'' (Some contacts0) (Some ''9876543210'')
              (fst (snd ?once), snd (snd ?once))
            = (fst ?twice, fst (snd ?twice), snd (snd ?twice))" by simp
  have n: "length (snd (snd ?once)) = 3"
    by (simp add: syncContacts_def contacts0_def user0_def create_def withOwn_def Let_def
        docs_bulkWrite matches_def upserted_def applySet_def)
  from syncContacts_idempotent [OF e1 e2] syncContacts_idempotent [OF e1 e3]
    reachable.empty n
  show ?thesis by blast
qed

section \<open>SMS sync: the batch loop\<close>

lemma batch0_sel [simp]:
  "rows (batch0 ds) = ds" "syncedCount (batch0 ds) = 0" "skippedCount (batch0 ds) = 0"
  "errors (batch0 ds) = []"
  by (simp_all add: batch0_def)

lemma syncLoop_append:
  "syncLoop c x (xs @ ys) b =
     (if snd (syncLoop c x xs b) then syncLoop c x xs b
      else syncLoop c x ys (fst (syncLoop c x xs b)))"
  by (induction c x xs b rule: syncLoop.induct) simp_all

lemma syncLoop_completes: "\<not> snd (syncLoop c x (map Some ms) b)"
  by (induction ms arbitrary: b) simp_all

lemma stored_append:
  "stored u i (ds @ [d]) = (stored u i ds \<or> (s_userId d = u \<and> Some (smsId d) = i))"
  unfolding stored_def by (induction ds) auto

lemma createSms_key:
  "createSms u m = Inr d \<Longrightarrow> s_userId d = u \<and> m_id m = Some (smsId d)"
  by (auto simp: createSms_def split: option.splits if_splits)

lemma createSms_failure: "createSms u m = Inl f \<Longrightarrow> f = ValidationFailure"
  by (auto simp: createSms_def split: option.splits if_splits)

lemma accepted_iff: "accepted u m \<longleftrightarrow> (\<exists>d. createSms u m = Inr d)"
  by (simp add: accepted_def split: sum.splits)

lemma processItem_skip:
  "c x = Some u \<Longrightarrow> stored u (m_id m) (rows b) \<Longrightarrow>
     processItem c x m b = b\<lparr>skippedCount := skippedCount b + 1\<rparr>"
  by (auto simp: processItem_def stored_def)

lemma processItem_insert:
  "c x = Some u \<Longrightarrow> \<not> stored u (m_id m) (rows b) \<Longrightarrow> createSms u m = Inr d \<Longrightarrow>
     processItem c x m b = b\<lparr>rows := rows b @ [d], syncedCount := syncedCount b + 1\<rparr>"
  by (simp add: processItem_def stored_def)

lemma processItem_fail:
  "c x = Some u \<Longrightarrow> \<not> stored u (m_id m) (rows b) \<Longrightarrow> createSms u m = Inl f \<Longrightarrow>
     processItem c x m b = b\<lparr>errors := errors b @ [(m_id m, f)]\<rparr>"
  by (simp add: processItem_def stored_def)

lemma processItem_cast_fails:
  "c x = None \<Longrightarrow> processItem c x m b = b\<lparr>errors := errors b @ [(m_id m, CastFailure)]\<rparr>"
  by (simp add: processItem_def)

lemma seen_start: "seen u ds [] ds"
  by (simp add: seen_def)

lemma seen_duplicate: "seen u ds pre rs \<Longrightarrow> stored u (m_id m) rs = duplicate u ds pre m"
  by (simp add: seen_def duplicate_def)

lemma seen_skip:
  assumes "seen u ds pre rs" and "stored u (m_id m) rs"
  shows "seen u ds (pre @ [m]) rs"
  using assms unfolding seen_def by auto

lemma seen_fail:
  assumes "seen u ds pre rs" and "createSms u m = Inl f"
  shows "seen u ds (pre @ [m]) rs"
  using assms unfolding seen_def by (auto simp: accepted_iff)

lemma seen_insert:
  assumes "seen u ds pre rs" and "createSms u m = Inr d"
  shows "seen u ds (pre @ [m]) (rs @ [d])"
  using assms createSms_key [OF assms(2)] unfolding seen_def
  by (auto simp: stored_append accepted_iff)

lemma syncLoop_outcomes:
  assumes "c x = Some u" and "seen u ds pre (rows b)"
  shows "rows (fst (syncLoop c x (map Some ms) b)) = rows b @ syncedRows (outcomes u ds pre ms)
       \<and> syncedCount (fst (syncLoop c x (map Some ms) b))
           = syncedCount b + length (syncedRows (outcomes u ds pre ms))
       \<and> skippedCount (fst (syncLoop c x (map Some ms) b))
           = skippedCount b + length (skippedItems (outcomes u ds pre ms))
       \<and> errors (fst (syncLoop c x (map Some ms) b)) = errors b @ failures (outcomes u ds pre ms)"
  using assms(2)
proof (induction ms arbitrary: b pre)
  case Nil
  show ?case by simp
next
  case (Cons m ms)
  note dup = seen_duplicate [OF Cons.prems, of m]
  show ?case
  proof (cases "stored u (m_id m) (rows b)")
    case True
    have "seen u ds (pre @ [m]) (rows (b\<lparr>skippedCount := skippedCount b + 1\<rparr>))"
      using seen_skip [OF Cons.prems True] by simp
    from Cons.IH [OF this] True dup show ?thesis
      using processItem_skip [of c x u m b] assms(1) by (simp add: outcomeOf_def)
  next
    case False
    show ?thesis
    proof (cases "createSms u m")
      case (Inl f)
      have "seen u ds (pre @ [m]) (rows (b\<lparr>errors := errors b @ [(m_id m, f)]\<rparr>))"
        using seen_fail [OF Cons.prems Inl] by simp
      from Cons.IH [OF this] False dup Inl show ?thesis
        using processItem_fail [of c x u m b f] assms(1) by (simp add: outcomeOf_def)
    next
      case (Inr d)
      have "seen u ds (pre @ [m])
              (rows (b\<lparr>rows := rows b @ [d], syncedCount := syncedCount b + 1\<rparr>))"
        using seen_insert [OF Cons.prems Inr] by simp
      from Cons.IH [OF this] False dup Inr show ?thesis
        using processItem_insert [of c x u m b d] assms(1) by (simp add: outcomeOf_def)
    qed
  qed
qed

lemma syncLoop_cast_fails:
  assumes "c x = None"
  shows "rows (fst (syncLoop c x (map Some ms) b)) = rows b
       \<and> syncedCount (fst (syncLoop c x (map Some ms) b)) = syncedCount b
       \<and> skippedCount (fst (syncLoop c x (map Some ms) b)) = skippedCount b
       \<and> errors (fst (syncLoop c x (map Some ms) b))
           = errors b @ map (\<lambda>m. (m_id m, CastFailure)) ms"
proof (induction ms arbitrary: b)
  case Nil
  show ?case by simp
next
  case (Cons m ms)
  from Cons [of "b\<lparr>errors := errors b @ [(m_id m, CastFailure)]\<rparr>"] show ?case
    using processItem_cast_fails [of c x m b] assms by simp
qed

lemma buckets_total:
  "length (syncedRows os) + length (skippedItems os) + length (failures os) = length os"
  by (induction os rule: syncedRows.induct) simp_all

lemma length_outcomes: "length (outcomes u ds pre ms) = length ms"
  by (induction ms arbitrary: pre) simp_all

lemma itemIds_member: "m \<in> set ms \<Longrightarrow> m_id m = Some k \<Longrightarrow> k \<in> set (itemIds ms)"
  by (induction ms) (auto split: option.splits)

lemma outcomes_distinct:
  assumes "distinct (itemIds ms)"
    and "\<forall>m \<in> set ms. \<not> list_ex (\<lambda>m0. m_id m0 = m_id m \<and> accepted u m0) pre"
  shows "skippedItems (outcomes u ds pre ms) = storedDuplicates u ms ds
       \<and> failures (outcomes u ds pre ms)
           = map (\<lambda>m. (m_id m, ValidationFailure)) (rejected u ms ds)"
  using assms
proof (induction ms arbitrary: pre)
  case Nil
  show ?case by (simp add: storedDuplicates_def rejected_def)
next
  case (Cons m ms)
  have d: "distinct (itemIds ms)" using Cons.prems(1) by (cases "m_id m") simp_all
  have fresh: "\<forall>m' \<in> set ms. \<not> list_ex (\<lambda>m0. m_id m0 = m_id m' \<and> accepted u m0) (pre @ [m])"
  proof
    fix m' assume m': "m' \<in> set ms"
    have "\<not> (m_id m = m_id m' \<and> accepted u m)"
    proof
      assume a: "m_id m = m_id m' \<and> accepted u m"
      then obtain r where "createSms u m = Inr r" by (auto simp: accepted_iff)
      then have k: "m_id m = Some (smsId r)" using createSms_key by blast
      with a m' have "smsId r \<in> set (itemIds ms)" using itemIds_member [of m' ms] by simp
      with k Cons.prems(1) show False by simp
    qed
    with Cons.prems(2) m' show "\<not> list_ex (\<lambda>m0. m_id m0 = m_id m' \<and> accepted u m0) (pre @ [m])"
      by simp
  qed
  have dup: "duplicate u ds pre m = stored u (m_id m) ds"
    using Cons.prems(2) by (simp add: duplicate_def)
  from Cons.IH [OF d fresh] dup show ?case
    by (cases "createSms u m")
       (auto simp: outcomeOf_def storedDuplicates_def rejected_def accepted_def
          dest: createSms_failure)
qed

lemma syncSmsBatch_some:
  "x \<noteq> [] \<Longrightarrow> syncSmsBatch c (Some x) (Some (map Some ms)) ds =
     (Reply 200 True ''SMS batch sync completed''
        (Some \<lparr>synced = syncedCount (fst (syncLoop c x (map Some ms) (batch0 ds))),
               skipped = skippedCount (fst (syncLoop c x (map Some ms) (batch0 ds))),
               errorCount = length (errors (fst (syncLoop c x (map Some ms) (batch0 ds)))),
               errorDetails = errors (fst (syncLoop c x (map Some ms) (batch0 ds)))\<rparr>),
      rows (fst (syncLoop c x (map Some ms) (batch0 ds))))"
  using syncLoop_completes [of c x ms "batch0 ds"]
  by (cases "syncLoop c x (map Some ms) (batch0 ds)") (auto simp: syncSmsBatch_def)

lemmas ex_defs = item1_def item2_def item3_def itemBad_def sms1_def sms2_def

lemma castHex_example:
  "castHex ''64b7f0c2a1d3e4f506172839'' = Some ''64b7f0c2a1d3e4f506172839''"
  "castHex ''64B7F0C2A1D3E4F506172839'' = Some ''64b7f0c2a1d3e4f506172839''"
  "castHex ''me'' = None"
  by (simp_all add: castHex_def isObjectId_def)

lemma null_item_aborts:
  "syncSmsBatch castHex (Some ''64b7f0c2a1d3e4f506172839'') (Some [Some item1, None, Some item2]) []
     = (Reply 500 False ''Failed to sync SMS batch'' None, [sms1])"
  by (simp add: syncSmsBatch_def processItem_def createSms_def ex_defs castHex_example)

text \<open>
  Claim C4, as stated, fails: an item that repeats the \<open>smsId\<close> of an earlier item of
  the same batch is skipped too. With two equal items and an empty collection (N = 2,
  M = 0, no error) the handler reports \<open>synced = 1\<close> and \<open>skipped = 1\<close>.
\<close>

theorem in_batch_duplicate_counterexample:
  "syncSmsBatch castHex (Some ''64b7f0c2a1d3e4f506172839'') (Some [Some item1, Some item1]) []
     = (Reply 200 True ''SMS batch sync completed''
          (Some \<lparr>synced = 1, skipped = 1, errorCount = 0, errorDetails = []\<rparr>),
        [sms1])
   \<and> storedDuplicates ''64b7f0c2a1d3e4f506172839'' [item1, item1] [] = []"
  by (simp add: syncSmsBatch_def processItem_def createSms_def storedDuplicates_def stored_def
      ex_defs castHex_example)

text \<open>
  Claim C4, amended. For every \<open>syncSmsBatch\<close> call with N items, none of them
  \<open>null\<close>, whose \<open>userId\<close> casts: the reply is the 200 reply, and every item falls in
  exactly one bucket, decided by the collection before the call and by the items before it
  alone: it is skipped when its \<open>(userId, smsId)\<close> is stored before the call or an
  earlier item of the call with the same \<open>smsId\<close> passed validation; otherwise it is
  inserted and counted in \<open>synced\<close> when it passes validation, and listed in \<open>errors\<close>
  with its \<open>smsId\<close> when it does not. So a failing item never stops the items after it,
  \<open>synced + skipped + errors = N\<close>, and the collection grows by exactly the \<open>synced\<close>
  rows. When moreover no two items of the batch carry the same \<open>smsId\<close>, the skipped
  items are the M items duplicating a row already stored for the user, the errors are the
  items that neither duplicate a stored row nor pass validation, and
  \<open>synced = N - M - errors\<close>. (When \<open>userId\<close> does not cast, all N items are listed in
  \<open>errors\<close> and nothing is stored.)
\<close>

theorem syncSmsBatch_counters:
  assumes "x \<noteq> []" and "os = outcomes u ds [] ms"
  shows "(castObjectId x = Some u \<longrightarrow>
            syncSmsBatch castObjectId (Some x) (Some (map Some ms)) ds
              = (Reply 200 True ''SMS batch sync completed''
                   (Some \<lparr>synced = length (syncedRows os), skipped = length (skippedItems os),
                          errorCount = length (failures os), errorDetails = failures os\<rparr>),
                 ds @ syncedRows os)
            \<and> length (syncedRows os) + length (skippedItems os) + length (failures os)
                = length ms
            \<and> (distinct (itemIds ms) \<longrightarrow>
                  skippedItems os = storedDuplicates u ms ds
                  \<and> failures os = map (\<lambda>m. (m_id m, ValidationFailure)) (rejected u ms ds)
                  \<and> length (syncedRows os) + length (storedDuplicates u ms ds)
                      + length (rejected u ms ds) = length ms))
       \<and> (castObjectId x = None \<longrightarrow>
            syncSmsBatch castObjectId (Some x) (Some (map Some ms)) ds
              = (Reply 200 True ''SMS batch sync completed''
                   (Some \<lparr>synced = 0, skipped = 0, errorCount = length ms,
                          errorDetails = map (\<lambda>m. (m_id m, CastFailure)) ms\<rparr>),
                 ds))"
proof (intro conjI impI)
  assume c: "castObjectId x = Some u"
  from syncLoop_outcomes [of castObjectId x u ds "[]" "batch0 ds" ms] c assms(2)
  show "syncSmsBatch castObjectId (Some x) (Some (map Some ms)) ds
          = (Reply 200 True ''SMS batch sync completed''
               (Some \<lparr>synced = length (syncedRows os), skipped = length (skippedItems os),
                      errorCount = length (failures os), errorDetails = failures os\<rparr>),
             ds @ syncedRows os)"
    by (simp add: syncSmsBatch_some [OF assms(1)] seen_start)
next
  show t: "length (syncedRows os) + length (skippedItems os) + length (failures os) = length ms"
    by (simp add: buckets_total assms(2) length_outcomes)
  assume d: "distinct (itemIds ms)"
  from outcomes_distinct [OF d, of u "[]" ds] assms(2)
  show s: "skippedItems os = storedDuplicates u ms ds"
    and f: "failures os = map (\<lambda>m. (m_id m, ValidationFailure)) (rejected u ms ds)"
    by simp_all
  from t s f
  show "length (syncedRows os) + length (storedDuplicates u ms ds) + length (rejected u ms ds)
          = length ms"
    by simp
next
  assume c: "castObjectId x = None"
  from syncLoop_cast_fails [of castObjectId x ms "batch0 ds"] c
  show "syncSmsBatch castObjectId (Some x) (Some (map Some ms)) ds
          = (Reply 200 True ''SMS batch sync completed''
               (Some \<lparr>synced = 0, skipped = 0, errorCount = length ms,
                      errorDetails = map (\<lambda>m. (m_id m, CastFailure)) ms\<rparr>),
             ds)"
    by (simp add: syncSmsBatch_some [OF assms(1)])
qed

theorem syncSmsBatch_counters_witness:
  "syncSmsBatch castHex (Some ''64B7F0C2A1D3E4F506172839'')
       (Some [Some item1, Some item3, Some item2]) [sms1]
     = (Reply 200 True ''SMS batch sync completed''
          (Some \<lparr>synced = 1, skipped = 1, errorCount = 1,
                 errorDetails = [(Some ''3'', ValidationFailure)]\<rparr>),
        [sms1, sms2])
   \<and> storedDuplicates ''64b7f0c2a1d3e4f506172839'' [item1, item3, item2] [sms1] = [item1]
   \<and> rejected ''64b7f0c2a1d3e4f506172839'' [item1, item3, item2] [sms1] = [item3]
   \<and> syncSmsBatch castHex (Some ''me'') (Some [Some item1, Some item2]) [sms1]
     = (Reply 200 True ''SMS batch sync completed''
          (Some \<lparr>synced = 0, skipped = 0, errorCount = 2,
                 errorDetails = [(Some ''1'', CastFailure), (Some ''2'', CastFailure)]\<rparr>),
        [sms1])"
proof -
  let ?u = "''64b7f0c2a1d3e4f506172839''"
  let ?ms = "[item1, item3, item2]"
  have ne: "''64B7F0C2A1D3E4F506172839'' \<noteq> []" "''me'' \<noteq> []" by simp_all
  have os: "[(item1, Skipped), (item3, Failed ValidationFailure), (item2, Synced sms2)]
              = outcomes ?u [sms1] [] ?ms"
    by (simp add: outcomeOf_def duplicate_def stored_def accepted_def createSms_def ex_defs)
  have d: "distinct (itemIds ?ms)" by (simp add: ex_defs)
  note A = syncSmsBatch_counters [where castObjectId = castHex, OF ne(1) os]
  note B = syncSmsBatch_counters [where castObjectId = castHex and u = ?u and ds = "[sms1]"
      and ms = "[item1, item2]", OF ne(2) refl]
  from A castHex_example(2)
  have a: "syncSmsBatch castHex (Some ''64B7F0C2A1D3E4F506172839'')
             (Some (map Some ?ms)) [sms1]
           = (Reply 200 True ''SMS batch sync completed''
                (Some \<lparr>synced = 1, skipped = 1, errorCount = 1,
                       errorDetails = [(Some ''3'', ValidationFailure)]\<rparr>),
              [sms1, sms2])"
    by (simp add: item3_def)
  from A castHex_example(2) d
  have s: "storedDuplicates ?u ?ms [sms1] = [item1]"
    and r: "map (\<lambda>m. (m_id m, ValidationFailure)) (rejected ?u ?ms [sms1])
              = [(m_id item3, ValidationFailure)]"
    by simp_all
  from r have r': "rejected ?u ?ms [sms1] = [item3]"
    by (simp add: rejected_def stored_def accepted_def createSms_def ex_defs)
  from B castHex_example(3)
  have b: "syncSmsBatch castHex (Some ''me'') (Some (map Some [item1, item2])) [sms1]
           = (Reply 200 True ''SMS batch sync completed''
                (Some \<lparr>synced = 0, skipped = 0, errorCount = 2,
                       errorDetails = [(Some ''1'', CastFailure), (Some ''2'', CastFailure)]\<rparr>),
              [sms1])"
    by (simp add: item1_def item2_def)
  from a s r' b show ?thesis by simp
qed

lemma syncLoop_snoc:
  "fst (syncLoop c x (map Some (xs @ [m])) b)
     = processItem c x m (fst (syncLoop c x (map Some xs) b))"
  using syncLoop_append [of c x "map Some xs" "[Some m]" b]
  by (simp add: syncLoop_completes)

lemma syncLoop_after:
  "fst (syncLoop c x (map Some xs @ ys) b) = fst (syncLoop c x ys (fst (syncLoop c x (map Some xs) b)))"
  by (simp add: syncLoop_append syncLoop_completes)

lemma processItem_rows_cases:
  assumes "c x = Some u"
  shows "rows (processItem c x m b) = rows b
   \<or> (\<exists>d. rows (processItem c x m b) = rows b @ [d] \<and> createSms u m = Inr d
          \<and> \<not> stored u (m_id m) (rows b))"
  using assms by (auto simp: processItem_def stored_def split: option.splits sum.splits)

lemma processItem_keeps_unstored:
  assumes "c x = Some u" and "\<not> stored u (Some k) (rows b)" and "m_id m \<noteq> Some k"
  shows "\<not> stored u (Some k) (rows (processItem c x m b))"
  using processItem_rows_cases [of c x u m b] assms
  by (auto simp: stored_append dest: createSms_key)

lemma syncLoop_keeps_unstored:
  assumes "c x = Some u"
  shows "\<not> stored u (Some k) (rows b) \<Longrightarrow> k \<notin> set (itemIds ms) \<Longrightarrow>
     \<not> stored u (Some k) (rows (fst (syncLoop c x (map Some ms) b)))"
proof (induction ms arbitrary: b)
  case Nil
  then show ?case by simp
next
  case (Cons m ms)
  from Cons.prems(2) have "m_id m \<noteq> Some k" and "k \<notin> set (itemIds ms)"
    by (auto split: option.splits)
  with Cons.IH Cons.prems(1) show ?case
    using processItem_keeps_unstored [of c x u k b m] assms by simp
qed

lemma processItem_keeps_key:
  assumes "c x = Some u" and "stored u (Some k) (rows b)"
  shows "filter (sameKey u k) (rows (processItem c x m b)) = filter (sameKey u k) (rows b)
         \<and> stored u (Some k) (rows (processItem c x m b))"
  using processItem_rows_cases [of c x u m b] assms
  by (auto simp: stored_append sameKey_def dest: createSms_key)

lemma syncLoop_keeps_key:
  "c x = Some u \<Longrightarrow> stored u (Some k) (rows b) \<Longrightarrow>
     filter (sameKey u k) (rows (fst (syncLoop c x ms b))) = filter (sameKey u k) (rows b)
     \<and> stored u (Some k) (rows (fst (syncLoop c x ms b)))"
proof (induction c x ms b rule: syncLoop.induct)
  case (3 c x m ms b)
  then show ?case using processItem_keeps_key [of c x u k b m] by simp
qed simp_all

lemma unstored_no_row: "\<not> stored u (Some k) ds \<Longrightarrow> filter (sameKey u k) ds = []"
  unfolding stored_def by (induction ds) (auto simp: sameKey_def split: if_splits)

lemma syncSmsBatch_rows:
  "x \<noteq> [] \<Longrightarrow>
     snd (syncSmsBatch c (Some x) (Some ms) ds) = rows (fst (syncLoop c x ms (batch0 ds)))"
  by (simp add: syncSmsBatch_def split: prod.splits bool.splits)

text \<open>
  Claim C10, as stated, fails: when the first occurrence of an \<open>smsId\<close> fails
  validation it is counted in \<open>errors\<close> and not inserted, and the next occurrence is
  inserted and counted in \<open>synced\<close>, not in \<open>skipped\<close>.
\<close>

theorem invalid_first_occurrence_counterexample:
  "syncSmsBatch castHex (Some ''64b7f0c2a1d3e4f506172839'') (Some [Some itemBad, Some item1]) []
     = (Reply 200 True ''SMS batch sync completed''
          (Some \<lparr>synced = 1, skipped = 0, errorCount = 1,
                 errorDetails = [(Some ''1'', ValidationFailure)]\<rparr>),
        [sms1])
   \<and> m_id itemBad = m_id item1"
  by (simp add: syncSmsBatch_def processItem_def createSms_def ex_defs castHex_example)

text \<open>
  Claim C10, amended. In a \<open>syncSmsBatch\<close> call whose \<open>userId\<close> casts, when the first
  item carrying an \<open>smsId\<close> not yet stored for the user passes validation, that item is
  inserted and counted in \<open>synced\<close>; every later item of the same call with that
  \<open>smsId\<close>, no element of the array before it being \<open>null\<close>, is counted in
  \<open>skipped\<close> and inserts nothing; and the collection ends with exactly one row for the
  pair, the one of the first occurrence, whatever follows.
\<close>

theorem repeated_id_skipped:
  assumes cast: "c x = Some u" and nonempty: "x \<noteq> []"
    and first: "m_id m = Some k" "k \<notin> set (itemIds pre)" "\<not> stored u (Some k) ds"
    and valid: "createSms u m = Inr d"
    and later: "m_id m' = Some k"
    and b1: "b1 = fst (syncLoop c x (map Some pre) (batch0 ds))"
    and b2: "b2 = fst (syncLoop c x (map Some (pre @ [m])) (batch0 ds))"
    and b3: "b3 = fst (syncLoop c x (map Some (pre @ m # mid)) (batch0 ds))"
    and b4: "b4 = fst (syncLoop c x (map Some (pre @ m # mid @ [m'])) (batch0 ds))"
  shows "b2 = b1\<lparr>rows := rows b1 @ [d], syncedCount := syncedCount b1 + 1\<rparr>
       \<and> b4 = b3\<lparr>skippedCount := skippedCount b3 + 1\<rparr>
       \<and> filter (sameKey u k)
             (snd (syncSmsBatch c (Some x) (Some (map Some (pre @ m # mid @ [m']) @ post)) ds))
           = [d]"
proof -
  have n1: "\<not> stored u (Some k) (rows b1)"
    unfolding b1 using syncLoop_keeps_unstored [of c x u k "batch0 ds" pre] cast first(2,3)
    by simp
  have e2: "b2 = processItem c x m b1"
    unfolding b1 b2 by (rule syncLoop_snoc)
  have s2: "b2 = b1\<lparr>rows := rows b1 @ [d], syncedCount := syncedCount b1 + 1\<rparr>"
    unfolding e2 using processItem_insert [of c x u m b1 d] cast valid n1 first(1) by simp
  have k: "s_userId d = u" "smsId d = k"
    using createSms_key [OF valid] first(1) by auto
  have in2: "stored u (Some k) (rows b2)"
    using k by (simp add: s2 stored_append)
  have f2: "filter (sameKey u k) (rows b2) = [d]"
    using unstored_no_row [OF n1] k by (simp add: s2 sameKey_def)
  have e3: "b3 = fst (syncLoop c x (map Some mid) b2)"
    unfolding b3 b2 using syncLoop_after [of c x "pre @ [m]" "map Some mid" "batch0 ds"]
    by simp
  have in3: "stored u (Some k) (rows b3)"
    unfolding e3 using syncLoop_keeps_key [of c x u k b2 "map Some mid"] cast in2 by simp
  have e4: "b4 = processItem c x m' b3"
    unfolding b4 b3 using syncLoop_snoc [of c x "pre @ m # mid" m' "batch0 ds"] by simp
  have s4: "b4 = b3\<lparr>skippedCount := skippedCount b3 + 1\<rparr>"
    unfolding e4 using processItem_skip [of c x u m' b3] cast in3 later by simp
  let ?all = "map Some (pre @ m # mid @ [m']) @ post"
  have "fst (syncLoop c x ?all (batch0 ds))
          = fst (syncLoop c x (map Some (mid @ [m']) @ post) b2)"
    unfolding b2
    using syncLoop_after [of c x "pre @ [m]" "map Some (mid @ [m']) @ post" "batch0 ds"]
    by simp
  then have "filter (sameKey u k) (rows (fst (syncLoop c x ?all (batch0 ds)))) = [d]"
    using syncLoop_keeps_key [of c x u k b2 "map Some (mid @ [m']) @ post"] cast in2 f2
    by simp
  then have "filter (sameKey u k) (snd (syncSmsBatch c (Some x) (Some ?all) ds)) = [d]"
    by (simp only: syncSmsBatch_rows [OF nonempty])
  with s2 s4 show ?thesis by blast
qed

theorem repeated_id_skipped_witness:
  "fst (syncLoop castHex ''64B7F0C2A1D3E4F506172839'' [Some item2, Some item1] (batch0 []))
     = (fst (syncLoop castHex ''64B7F0C2A1D3E4F506172839'' [Some item2] (batch0 [])))
         \<lparr>rows := rows (fst (syncLoop castHex ''64B7F0C2A1D3E4F506172839'' [Some item2]
                           (batch0 []))) @ [sms1],
          syncedCount := syncedCount (fst (syncLoop castHex ''64B7F0C2A1D3E4F506172839''
                           [Some item2] (batch0 []))) + 1\<rparr>
   \<and> fst (syncLoop castHex ''64B7F0C2A1D3E4F506172839''
           [Some item2, Some item1, Some item3, Some itemBad] (batch0 []))
     = (fst (syncLoop castHex ''64B7F0C2A1D3E4F506172839''
           [Some item2, Some item1, Some item3] (batch0 [])))
         \<lparr>skippedCount :=
            skippedCount (fst (syncLoop castHex ''64B7F0C2A1D3E4F506172839''
                                 [Some item2, Some item1, Some item3] (batch0 []))) + 1\<rparr>
   \<and> filter (sameKey ''64b7f0c2a1d3e4f506172839'' ''1'')
         (snd (syncSmsBatch castHex (Some ''64B7F0C2A1D3E4F506172839'')
                 (Some [Some item2, Some item1, Some item3, Some itemBad, None, Some item1])
                 []))
       = [sms1]"
proof -
  have h: "castHex ''64B7F0C2A1D3E4F506172839'' = Some ''64b7f0c2a1d3e4f506172839''"
    "''64B7F0C2A1D3E4F506172839'' \<noteq> []"
    "m_id item1 = Some ''1''" "''1'' \<notin> set (itemIds [item2])"
    "\<not> stored ''64b7f0c2a1d3e4f506172839'' (Some ''1'') []"
    "createSms ''64b7f0c2a1d3e4f506172839'' item1 = Inr sms1"
    "m_id itemBad = Some ''1''"
    by (simp_all add: ex_defs stored_def createSms_def castHex_example)
  note F = repeated_id_skipped [where c = castHex and mid = "[item3]"
      and post = "[None, Some item1]", OF h refl refl refl refl]
  from F [unfolded append.simps list.map] show ?thesis .
qed

end
